theory Spec2Isabelle
  imports Main "HOL-Library.AList" "HOL-Library.Word"
begin

section \<open>Python values handled by dicttoxml\<close>

text \<open>
  The module is read as Python 3 (a version that still has \<open>collections.Iterable\<close>): text
  is \<open>str\<close>, and the module's names \<open>unicode\<close> and \<open>long\<close> stand for \<open>str\<close> and \<open>int\<close>. The
  calls of \<open>LOG.info\<close> are left out: they write to the log and have no part in a result.

  The converter dispatches on the runtime type of a value. A value is one of the
  shapes below. Text is a list of characters, one \<^typ>\<open>char\<close> per code point (code
  points below 256); \<open>PStr\<close> is a text whose type is \<open>str\<close> itself (a text of a proper
  subclass of \<open>str\<close> is not among the values). A float and any other \<open>numbers.Number\<close> instance (Decimal,
  Fraction, complex) are carried by the text \<open>str()\<close> gives for them, which is all the
  converter ever reads of them. A date-like value (one with an \<open>isoformat\<close> attribute)
  carries the text \<open>isoformat()\<close> returns. A mapping is the list of its items in
  iteration order, with text keys. \<open>PList\<close> is a list (any other non-mapping iterable
  is read through its items in the same way). \<open>PObj\<close> is any other object, with its
  \<open>str()\<close> text and the name of its type.
\<close>

datatype pyval =
    PStr string
  | PInt int
  | PFloat string
  | PNum string string
  | PBool bool
  | PNone
  | PDate string string
  | PDict "(string \<times> pyval) list"
  | PList "pyval list"
  | PObj string string

datatype error = TypeError string | IndexError

type_synonym attrs = "(string \<times> string) list"

subsection \<open>Text primitives of Python\<close>

text \<open>\<open>str(n)\<close> for an integer: decimal digits, a minus sign for a negative number.\<close>

fun str_nat :: "nat \<Rightarrow> string" where
  "str_nat n = (if n < 10 then [''0123456789'' ! n]
                else str_nat (n div 10) @ [''0123456789'' ! (n mod 10)])"

declare str_nat.simps [simp del]

definition str_int :: "int \<Rightarrow> string" where
  "str_int i = (if i < 0 then ''-'' @ str_nat (nat (- i)) else str_nat (nat i))"

text \<open>\<open>s.replace(c, r)\<close> for a one-character pattern \<open>c\<close>: every occurrence of
  \<open>c\<close> becomes \<open>r\<close>, the other characters stay.\<close>

definition replace_char :: "char \<Rightarrow> string \<Rightarrow> string \<Rightarrow> string" where
  "replace_char c r s = concat (map (\<lambda>x. if x = c then r else [x]) s)"

text \<open>\<open>'{}'.format(v)\<close>, that is \<open>str(v)\<close>, for the values the converter formats:
  scalars inside an element, and an unsupported object inside the error message.
  Containers and date-like objects are never formatted, and the model leaves their
  text open.\<close>

fun py_str :: "pyval \<Rightarrow> string" where
  "py_str (PStr s) = s"
| "py_str (PInt i) = str_int i"
| "py_str (PFloat r) = r"
| "py_str (PNum r t) = r"
| "py_str (PBool b) = (if b then ''True'' else ''False'')"
| "py_str PNone = ''None''"
| "py_str (PObj r t) = r"

text \<open>\<open>type(v).__name__\<close>.\<close>

fun type_name :: "pyval \<Rightarrow> string" where
  "type_name (PStr s) = ''str''"
| "type_name (PInt i) = ''int''"
| "type_name (PFloat r) = ''float''"
| "type_name (PNum r t) = t"
| "type_name (PBool b) = ''bool''"
| "type_name PNone = ''NoneType''"
| "type_name (PDate r t) = t"
| "type_name (PDict d) = ''dict''"
| "type_name (PList xs) = ''list''"
| "type_name (PObj r t) = t"

section \<open>Escaper: \<open>xml_escape\<close>\<close>

text \<open>
  \<^verbatim>\<open>
  def xml_escape(s):
      if type(s) in (str, unicode):
          s = unicode_me(s)
          s = s.replace('&', '&amp;')
          s = s.replace('"', '&quot;')
          s = s.replace('\'', '&apos;')
          s = s.replace('<', '&lt;')
          s = s.replace('>', '&gt;')
      return s
  \<close>
  \<open>unicode_me\<close> returns a text unchanged.
\<close>

fun xml_escape :: "pyval \<Rightarrow> pyval" where
  "xml_escape (PStr s) =
     (let s = replace_char (CHR ''&'') ''&amp;'' s;
          s = replace_char (CHR 0x22) ''&quot;'' s;
          s = replace_char (CHR 0x27) ''&apos;'' s;
          s = replace_char (CHR ''<'') ''&lt;'' s;
          s = replace_char (CHR ''>'') ''&gt;'' s
      in PStr s)"
| "xml_escape v = v"

text \<open>The entity that stands for one character after escaping.\<close>

definition escape_char :: "char \<Rightarrow> string" where
  "escape_char c =
     (if c = CHR ''&'' then ''&amp;''
      else if c = CHR 0x22 then ''&quot;''
      else if c = CHR 0x27 then ''&apos;''
      else if c = CHR ''<'' then ''&lt;''
      else if c = CHR ''>'' then ''&gt;''
      else [c])"

section \<open>Type Classifier: \<open>get_xml_type\<close>\<close>

text \<open>
  \<^verbatim>\<open>
  def get_xml_type(val):
      type_str_mapping = {
          str: 'str', unicode: 'str', int: 'int', long: 'int', float: 'float',
          bool: 'bool', numbers.Number: 'number', type(None): 'null',
          dict: 'dict', collections.Iterable: 'list'
      }
      for val_type, type_str in type_str_mapping:
          if isinstance(val, val_type):
              return type_str
      return type(val).__name__
  \<close>
  The keys of the table are type objects; on Python 3 \<open>unicode\<close> is \<open>str\<close> and
  \<open>long\<close> is \<open>int\<close>, so the table has eight entries.
\<close>

datatype pytype = T_str | T_int | T_float | T_bool | T_Number | T_NoneType | T_dict | T_Iterable

text \<open>\<open>isinstance(v, T)\<close>: \<open>bool\<close> is a subclass of \<open>int\<close>, every number is a
  \<open>numbers.Number\<close>, and texts, mappings and lists are iterable.\<close>

fun isinstance :: "pyval \<Rightarrow> pytype \<Rightarrow> bool" where
  "isinstance v T_str = (case v of PStr s \<Rightarrow> True | _ \<Rightarrow> False)"
| "isinstance v T_int = (case v of PInt i \<Rightarrow> True | PBool b \<Rightarrow> True | _ \<Rightarrow> False)"
| "isinstance v T_float = (case v of PFloat r \<Rightarrow> True | _ \<Rightarrow> False)"
| "isinstance v T_bool = (case v of PBool b \<Rightarrow> True | _ \<Rightarrow> False)"
| "isinstance v T_Number =
     (case v of PInt i \<Rightarrow> True | PFloat r \<Rightarrow> True | PNum r t \<Rightarrow> True | PBool b \<Rightarrow> True
      | _ \<Rightarrow> False)"
| "isinstance v T_NoneType = (case v of PNone \<Rightarrow> True | _ \<Rightarrow> False)"
| "isinstance v T_dict = (case v of PDict d \<Rightarrow> True | _ \<Rightarrow> False)"
| "isinstance v T_Iterable =
     (case v of PStr s \<Rightarrow> True | PDict d \<Rightarrow> True | PList xs \<Rightarrow> True | _ \<Rightarrow> False)"

text \<open>A dict display evaluates its items left to right; a key that is already there
  keeps its place and takes the new value.\<close>

definition dict_display :: "('k \<times> 'v) list \<Rightarrow> ('k \<times> 'v) list" where
  "dict_display kvs = fold (\<lambda>(k, v) d. AList.update k v d) kvs []"

definition type_str_mapping :: "(pytype \<times> string) list" where
  "type_str_mapping = dict_display
     [(T_str, ''str''), (T_str, ''str''), (T_int, ''int''), (T_int, ''int''),
      (T_float, ''float''), (T_bool, ''bool''), (T_Number, ''number''),
      (T_NoneType, ''null''), (T_dict, ''dict''), (T_Iterable, ''list'')]"

text \<open>The target list \<open>val_type, type_str\<close> unpacks the loop's item. The loop runs over
  the dict itself (not over its \<open>items()\<close>), so the item is a key of the table: a type
  object. Unpacking iterates its operand, a class is not iterable, and the statement
  raises TypeError, whichever key it is.\<close>

definition unpack_pair :: "pytype \<Rightarrow> error + (pytype \<times> string)" where
  "unpack_pair k = Inl (TypeError ''cannot unpack non-iterable type object'')"

fun get_xml_type_loop :: "pytype list \<Rightarrow> pyval \<Rightarrow> error + string" where
  "get_xml_type_loop [] val = Inr (type_name val)"
| "get_xml_type_loop (k # ks) val =
     (case unpack_pair k of
        Inl e \<Rightarrow> Inl e
      | Inr (val_type, type_str) \<Rightarrow>
          if isinstance val val_type then Inr type_str else get_xml_type_loop ks val)"

definition get_xml_type :: "pyval \<Rightarrow> error + string" where
  "get_xml_type val = get_xml_type_loop (map fst type_str_mapping) val"

section \<open>Name Sanitizer\<close>

text \<open>
  \<open>key_is_valid_xml\<close> hands a one-element document to \<open>xml.dom.minidom.parseString\<close> and
  answers whether it parsed; every exception of the parser is caught. The parser is a
  library outside this repository: the model takes its verdict (the document parses) as
  the parameter \<open>parses\<close>.
\<close>

type_synonym xml_parser = "string \<Rightarrow> bool"

definition key_is_valid_xml :: "xml_parser \<Rightarrow> string \<Rightarrow> bool" where
  "key_is_valid_xml parses key =
     parses (''<?xml version=\"1.0\" encoding=\"UTF-8\" ?><'' @ key @ ''>foo</'' @ key @ ''>'')"

text \<open>\<open>str.isdigit\<close>: at least one character, and each a digit. Below code point 256
  the digits are 0 to 9 and the superscripts two, three and one.\<close>

definition is_digit_char :: "char \<Rightarrow> bool" where
  "is_digit_char c = (c \<in> set ''0123456789'' \<or> c \<in> set [CHR 0xB2, CHR 0xB3, CHR 0xB9])"

definition isdigit :: "string \<Rightarrow> bool" where
  "isdigit s = (s \<noteq> [] \<and> list_all is_digit_char s)"

text \<open>
  \<^verbatim>\<open>
  def make_valid_xml_name(key, attr):
      if key_is_valid_xml(key):
          return key, attr
      if key.isdigit():
          return 'n%s' % (key), attr
      if key_is_valid_xml(key.replace(' ', '_')):
          return key.replace(' ', '_'), attr
      attr['name'] = key
      key = 'key'
      return key, attr
  \<close>
  The attribute dict is changed in place; the model returns the dict as it is after the
  call.
\<close>

definition make_valid_xml_name :: "xml_parser \<Rightarrow> string \<Rightarrow> attrs \<Rightarrow> string \<times> attrs" where
  "make_valid_xml_name parses key attr =
     (if key_is_valid_xml parses key then (key, attr)
      else if isdigit key then (''n'' @ key, attr)
      else if key_is_valid_xml parses (replace_char (CHR '' '') ''_'' key)
        then (replace_char (CHR '' '') ''_'' key, attr)
      else (''key'', AList.update ''name'' key attr))"

section \<open>Attribute strings\<close>

text \<open>\<open>sep.join(xs)\<close>.\<close>

fun join :: "string \<Rightarrow> string list \<Rightarrow> string" where
  "join sep [] = []"
| "join sep [x] = x"
| "join sep (x # y # zs) = x @ sep @ join sep (y # zs)"

text \<open>
  \<^verbatim>\<open>
  def make_attrstring(attr):
      attrstring = ' '.join(['%s="%s"' % (k, v) for k, v in attr.items()])
      return '%s%s' % (' ' if attrstring != '' else '', attrstring)
  \<close>
\<close>

definition make_attrstring :: "attrs \<Rightarrow> string" where
  "make_attrstring attr =
     (let attrstring = join '' '' (map (\<lambda>(k, v). k @ ''=\"'' @ v @ ''\"'') attr)
      in (if attrstring \<noteq> [] then '' '' else []) @ attrstring)"

section \<open>Process state and the result of a call\<close>

text \<open>
  The state a conversion can read or change: the module's list \<open>ids\<close>, the three dicts
  that are the default value of the parameter \<open>attr\<close> of \<open>convert_kv\<close>, \<open>convert_bool\<close> and
  \<open>convert_none\<close> (a default is evaluated once, so a call that leaves \<open>attr\<close> out works
  on the same dict as every other such call), and the random source: \<open>rand\<close> is the
  sequence of raw draws and \<open>rpos\<close> the number of draws made so far.

  A call in a state either does not return (\<open>None\<close>) or ends in a new state, with an
  exception (\<open>Inl\<close>) or a value (\<open>Inr\<close>).
\<close>

record pstate =
  ids :: "string list"
  kv_attr :: attrs
  bool_attr :: attrs
  none_attr :: attrs
  rand :: "nat \<Rightarrow> nat"
  rpos :: nat

type_synonym 'a run = "pstate \<Rightarrow> ((error + 'a) \<times> pstate) option"

definition ret :: "'a \<Rightarrow> 'a run" where
  "ret x s = Some (Inr x, s)"

definition raise :: "error \<Rightarrow> 'a run" where
  "raise e s = Some (Inl e, s)"

definition bind :: "'a run \<Rightarrow> ('a \<Rightarrow> 'b run) \<Rightarrow> 'b run" where
  "bind m f s =
     (case m s of
        None \<Rightarrow> None
      | Some (Inl e, s') \<Rightarrow> Some (Inl e, s')
      | Some (Inr x, s') \<Rightarrow> f x s')"

text \<open>A computation that touches no state, as a call.\<close>

definition lift :: "error + 'a \<Rightarrow> 'a run" where
  "lift r s = Some (r, s)"

section \<open>Identity Allocator\<close>

text \<open>\<open>randint(start, end)\<close>: the next draw, brought into the range from \<open>start\<close> to
  \<open>end\<close>, both included.\<close>

definition randint :: "int \<Rightarrow> int \<Rightarrow> pstate \<Rightarrow> int \<times> pstate" where
  "randint start end s =
     (start + int (rand s (rpos s) mod nat (end - start + 1)), s\<lparr>rpos := Suc (rpos s)\<rparr>)"

text \<open>
  \<^verbatim>\<open>
  def make_id(element, start=100000, end=999999):
      return '%s_%s' % (element, randint(start, end))
  \<close>
\<close>

definition make_id :: "string \<Rightarrow> int \<Rightarrow> int \<Rightarrow> pstate \<Rightarrow> string \<times> pstate" where
  "make_id element start end s =
     (let (n, s') = randint start end s in (element @ ''_'' @ str_int n, s'))"

text \<open>
  \<^verbatim>\<open>
  def get_unique_id(element):
      this_id = make_id(element)
      dup = True
      while dup is True:
          if this_id not in ids:
              dup = False
              ids.append(this_id)
          else:
              this_id = make_id(element)
      return ids[-1]
  \<close>
  The loop has no bound: it ends when a candidate is not in \<open>ids\<close>.
\<close>

partial_function (option) get_unique_id_loop :: "string \<Rightarrow> string \<Rightarrow> pstate \<Rightarrow> pstate option" where
  "get_unique_id_loop element this_id s =
     (if this_id \<notin> set (ids s) then Some (s\<lparr>ids := ids s @ [this_id]\<rparr>)
      else (let p = make_id element 100000 999999 s
            in get_unique_id_loop element (fst p) (snd p)))"

definition get_unique_id :: "string \<Rightarrow> string run" where
  "get_unique_id element s =
     (let p = make_id element 100000 999999 s in
      case get_unique_id_loop element (fst p) (snd p) of
        None \<Rightarrow> None
      | Some s' \<Rightarrow> (if ids s' = [] then Some (Inl IndexError, s') else Some (Inr (last (ids s')), s')))"

section \<open>Element Renderer\<close>

text \<open>\<open>'<{}{}>{}</{}>'.format(key, attrstring, content, key)\<close>.\<close>

definition element :: "string \<Rightarrow> string \<Rightarrow> string \<Rightarrow> string" where
  "element key attrstring content = ''<'' @ key @ attrstring @ ''>'' @ content @ ''</'' @ key @ ''>''"

text \<open>\<open>if attr_type: attr['type'] = get_xml_type(val)\<close>: the dict after the statement,
  or the exception of the classifier (the dict is then as before).\<close>

definition set_type_attr :: "bool \<Rightarrow> pyval \<Rightarrow> attrs \<Rightarrow> error + attrs" where
  "set_type_attr attr_type val attr =
     (if attr_type
      then (case get_xml_type val of Inl e \<Rightarrow> Inl e | Inr t \<Rightarrow> Inr (AList.update ''type'' t attr))
      else Inr attr)"

text \<open>
  \<^verbatim>\<open>
  def convert_kv(key, val, attr_type, attr={}):
      key, attr = make_valid_xml_name(key, attr)
      if attr_type:
          attr['type'] = get_xml_type(val)
      attrstring = make_attrstring(attr)
      return '<{}{}>{}</{}>'.format(key, attrstring, xml_escape(val), key)
  \<close>
  Each leaf renderer returns the dict \<open>attr\<close> as the call leaves it (it is changed in
  place, also when the call raises) and the result.
\<close>

definition convert_kv :: "xml_parser \<Rightarrow> string \<Rightarrow> pyval \<Rightarrow> bool \<Rightarrow> attrs \<Rightarrow> attrs \<times> (error + string)" where
  "convert_kv parses key0 val attr_type attr0 =
     (let (key, attr) = make_valid_xml_name parses key0 attr0 in
      case set_type_attr attr_type val attr of
        Inl e \<Rightarrow> (attr, Inl e)
      | Inr attr' \<Rightarrow> (attr', Inr (element key (make_attrstring attr') (py_str (xml_escape val)))))"

text \<open>\<open>s.lower()\<close> on code points below 256.\<close>

definition lower_char :: "char \<Rightarrow> char" where
  "lower_char c =
     (let n = (of_char c :: nat)
      in if (65 \<le> n \<and> n \<le> 90) \<or> (192 \<le> n \<and> n \<le> 222 \<and> n \<noteq> 215) then char_of (n + 32) else c)"

text \<open>
  \<^verbatim>\<open>
  def convert_bool(key, val, attr_type, attr={}):
      key, attr = make_valid_xml_name(key, attr)
      if attr_type:
          attr['type'] = get_xml_type(val)
      attrstring = make_attrstring(attr)
      return '<{}{}>{}</{}>'.format(key, attrstring, unicode(val).lower(), key)
  \<close>
\<close>

definition convert_bool :: "xml_parser \<Rightarrow> string \<Rightarrow> pyval \<Rightarrow> bool \<Rightarrow> attrs \<Rightarrow> attrs \<times> (error + string)" where
  "convert_bool parses key0 val attr_type attr0 =
     (let (key, attr) = make_valid_xml_name parses key0 attr0 in
      case set_type_attr attr_type val attr of
        Inl e \<Rightarrow> (attr, Inl e)
      | Inr attr' \<Rightarrow> (attr', Inr (element key (make_attrstring attr') (map lower_char (py_str val)))))"

text \<open>
  \<^verbatim>\<open>
  def convert_none(key, val, attr_type, attr={}):
      key, attr = make_valid_xml_name(key, attr)
      if attr_type:
          attr['type'] = get_xml_type(val)
      attrstring = make_attrstring(attr)
      return '<{}{}></{}>'.format(key, attrstring, key)
  \<close>
\<close>

definition convert_none :: "xml_parser \<Rightarrow> string \<Rightarrow> pyval \<Rightarrow> bool \<Rightarrow> attrs \<Rightarrow> attrs \<times> (error + string)" where
  "convert_none parses key0 val attr_type attr0 =
     (let (key, attr) = make_valid_xml_name parses key0 attr0 in
      case set_type_attr attr_type val attr of
        Inl e \<Rightarrow> (attr, Inl e)
      | Inr attr' \<Rightarrow> (attr', Inr (element key (make_attrstring attr') [])))"

section \<open>Conversion Engine\<close>

text \<open>The tests of the dispatch: \<open>type(v) in (str, unicode)\<close>, \<open>type(v) == bool\<close>,
  \<open>hasattr(v, 'isoformat')\<close>; and what the engine reads from a value: the text of
  \<open>v.isoformat()\<close>, the items of a dict, the items that iterating a value yields (a text
  yields its characters, each a text of length one; a dict yields its keys).\<close>

definition type_is_str :: "pyval \<Rightarrow> bool" where
  "type_is_str v = (case v of PStr s \<Rightarrow> True | _ \<Rightarrow> False)"

definition type_is_bool :: "pyval \<Rightarrow> bool" where
  "type_is_bool v = (case v of PBool b \<Rightarrow> True | _ \<Rightarrow> False)"

definition has_isoformat :: "pyval \<Rightarrow> bool" where
  "has_isoformat v = (case v of PDate r t \<Rightarrow> True | _ \<Rightarrow> False)"

fun isoformat :: "pyval \<Rightarrow> pyval" where
  "isoformat (PDate r t) = PStr r"

fun dict_items :: "pyval \<Rightarrow> (string \<times> pyval) list" where
  "dict_items (PDict d) = d"

fun iter_items :: "pyval \<Rightarrow> pyval list" where
  "iter_items (PList xs) = xs"
| "iter_items (PStr s) = map (\<lambda>c. PStr [c]) s"
| "iter_items (PDict d) = map (\<lambda>kv. PStr (fst kv)) d"

text \<open>\<open>TypeError('Unsupported data type: {} ({})'.format(v, type(v).__name__))\<close>.\<close>

definition unsupported :: "pyval \<Rightarrow> error" where
  "unsupported v = TypeError (''Unsupported data type: '' @ py_str v @ '' ('' @ type_name v @ '')'')"

text \<open>The recursion ends: a nested container is smaller than the entry that holds it.\<close>

lemma dict_items_size:
  "isinstance v T_dict \<Longrightarrow> size_list (size_prod (\<lambda>_. 0) size) (dict_items v) < size v"
  by (cases v) auto

lemma iter_items_size:
  "isinstance v T_Iterable \<Longrightarrow> \<not> type_is_str v \<Longrightarrow> \<not> isinstance v T_dict
     \<Longrightarrow> size_list size (iter_items v) < size v"
  by (cases v) (auto simp: type_is_str_def)

text \<open>
  \<open>convert_dict\<close> and \<open>convert_list\<close> build the list \<open>output\<close> entry by entry and join it at
  the end; the recursion below renders the first entry and appends the rendering of the
  rest, which is the same text. The functions take the items of the container they
  convert: \<open>obj.items()\<close> for \<open>convert_dict\<close>, the items \<open>enumerate(items)\<close> runs over for
  \<open>convert_list\<close>. \<open>convert_list_loop\<close> is the loop of \<open>convert_list\<close>, with the index \<open>i\<close> of
  \<open>enumerate\<close>; \<open>this_id\<close> is read only when \<open>ids\<close> is set. The flag \<open>ids\<close> of the source is
  \<open>use_ids\<close> here (the module's list has the name \<open>ids\<close>). A leaf renderer called with the
  loop's own dict \<open>attr\<close> changes no state: only its result is kept.
\<close>

function (sequential)
  convert_dict :: "xml_parser \<Rightarrow> (string \<times> pyval) list \<Rightarrow> bool \<Rightarrow> string \<Rightarrow> bool \<Rightarrow> string run"
and convert_list_loop :: "xml_parser \<Rightarrow> pyval list \<Rightarrow> nat \<Rightarrow> bool \<Rightarrow> string \<Rightarrow> string \<Rightarrow> bool \<Rightarrow> string run"
and convert_list :: "xml_parser \<Rightarrow> pyval list \<Rightarrow> bool \<Rightarrow> string \<Rightarrow> bool \<Rightarrow> string run"
where
  "convert_dict parses [] use_ids parent attr_type = ret []"
| "convert_dict parses ((key0, val) # rest) use_ids parent attr_type =
     bind (if \<not> use_ids then ret [] else bind (get_unique_id parent) (\<lambda>u. ret [(''id'', u)]))
       (\<lambda>attr0.
          let (key, attr) = make_valid_xml_name parses key0 attr0 in
          bind
            (if isinstance val T_Number \<or> type_is_str val
               then lift (snd (convert_kv parses key val attr_type attr))
             else if has_isoformat val
               then lift (snd (convert_kv parses key (isoformat val) attr_type attr))
             else if type_is_bool val
               then lift (snd (convert_bool parses key val attr_type attr))
             else if isinstance val T_dict
               then bind (lift (set_type_attr attr_type val attr))
                      (\<lambda>attr. bind (convert_dict parses (dict_items val) use_ids key attr_type)
                         (\<lambda>inner. ret (element key (make_attrstring attr) inner)))
             else if isinstance val T_Iterable
               then bind (lift (set_type_attr attr_type val attr))
                      (\<lambda>attr. bind (convert_list parses (iter_items val) use_ids key attr_type)
                         (\<lambda>inner. ret (element key (make_attrstring attr) inner)))
             else if val = PNone
               then lift (snd (convert_none parses key val attr_type attr))
             else raise (unsupported val))
            (\<lambda>line. bind (convert_dict parses rest use_ids parent attr_type)
               (\<lambda>output. ret (line @ output))))"
| "convert_list_loop parses [] i use_ids this_id parent attr_type = ret []"
| "convert_list_loop parses (item # rest) i use_ids this_id parent attr_type =
     (let attr = (if \<not> use_ids then [] else [(''id'', this_id @ ''_'' @ str_int (int i + 1))]) in
      bind
        (if isinstance item T_Number \<or> type_is_str item
           then lift (snd (convert_kv parses ''item'' item attr_type attr))
         else if has_isoformat item
           then lift (snd (convert_kv parses ''item'' (isoformat item) attr_type attr))
         else if type_is_bool item
           then lift (snd (convert_bool parses ''item'' item attr_type attr))
         else if isinstance item T_dict
           then (if \<not> attr_type
                 then convert_dict parses (dict_items item) use_ids parent attr_type
                 else bind (convert_dict parses (dict_items item) use_ids parent attr_type)
                        (\<lambda>inner. ret (''<item type=\"dict\">'' @ inner @ ''</item>'')))
         else if isinstance item T_Iterable
           then (if \<not> attr_type
                 then convert_list parses (iter_items item) use_ids ''item'' attr_type
                 else bind (convert_list parses (iter_items item) use_ids ''item'' attr_type)
                        (\<lambda>inner. ret (''<item type=\"list\"'' @ make_attrstring attr @ ''>''
                                         @ inner @ ''</item>'')))
         else if item = PNone
           then lift (snd (convert_none parses ''item'' PNone attr_type attr))
         else raise (unsupported item))
        (\<lambda>line. bind (convert_list_loop parses rest (Suc i) use_ids this_id parent attr_type)
           (\<lambda>output. ret (line @ output))))"
| "convert_list parses items use_ids parent attr_type =
     bind (if use_ids then get_unique_id parent else ret [])
       (\<lambda>this_id. convert_list_loop parses items 0 use_ids this_id parent attr_type)"
  by pat_completeness auto

termination
  apply (relation "measure (\<lambda>x. case x of
      Inl (p, d, r) \<Rightarrow> 2 * size_list (size_prod (\<lambda>_. 0) size) d
    | Inr (Inl (p, xs, r)) \<Rightarrow> 2 * size_list size xs
    | Inr (Inr (p, xs, r)) \<Rightarrow> 2 * size_list size xs + 1)")
  apply (auto simp del: isinstance.simps dest!: dict_items_size dest: iter_items_size)
  done

text \<open>A leaf renderer called without \<open>attr\<close>: it works on its default dict, which keeps
  what the call does to it.\<close>

definition on_kv_default :: "(attrs \<Rightarrow> attrs \<times> (error + string)) \<Rightarrow> string run" where
  "on_kv_default f s = (let (a, r) = f (kv_attr s) in Some (r, s\<lparr>kv_attr := a\<rparr>))"

definition on_bool_default :: "(attrs \<Rightarrow> attrs \<times> (error + string)) \<Rightarrow> string run" where
  "on_bool_default f s = (let (a, r) = f (bool_attr s) in Some (r, s\<lparr>bool_attr := a\<rparr>))"

definition on_none_default :: "(attrs \<Rightarrow> attrs \<times> (error + string)) \<Rightarrow> string run" where
  "on_none_default f s = (let (a, r) = f (none_attr s) in Some (r, s\<lparr>none_attr := a\<rparr>))"

text \<open>
  \<^verbatim>\<open>
  def convert(obj, ids, attr_type, parent='root'):
      if isinstance(obj, numbers.Number) or type(obj) in (str, unicode):
          return convert_kv('item', obj, attr_type)
      if hasattr(obj, 'isoformat'):
          return convert_kv('item', obj.isoformat(), attr_type)
      if type(obj) == bool:
          return convert_bool('item', obj, attr_type)
      if obj is None:
          return convert_none('item', '', attr_type)
      if isinstance(obj, dict):
          return convert_dict(obj, ids, parent, attr_type)
      if isinstance(obj, collections.Iterable):
          return convert_list(obj, ids, parent, attr_type)
      raise TypeError('Unsupported data type: {} ({})'.format(obj, type(obj).__name__))
  \<close>
\<close>

definition convert :: "xml_parser \<Rightarrow> pyval \<Rightarrow> bool \<Rightarrow> bool \<Rightarrow> string \<Rightarrow> string run" where
  "convert parses obj use_ids attr_type parent =
     (if isinstance obj T_Number \<or> type_is_str obj
        then on_kv_default (convert_kv parses ''item'' obj attr_type)
      else if has_isoformat obj
        then on_kv_default (convert_kv parses ''item'' (isoformat obj) attr_type)
      else if type_is_bool obj
        then on_bool_default (convert_bool parses ''item'' obj attr_type)
      else if obj = PNone
        then on_none_default (convert_none parses ''item'' (PStr []) attr_type)
      else if isinstance obj T_dict
        then convert_dict parses (dict_items obj) use_ids parent attr_type
      else if isinstance obj T_Iterable
        then convert_list parses (iter_items obj) use_ids parent attr_type
      else raise (unsupported obj))"

section \<open>Document Assembler: \<open>dicttoxml\<close>\<close>

text \<open>\<open>s.encode('utf-8')\<close> for code points below 256: one byte below 128, two bytes from
  128 on.\<close>

definition encode_utf8 :: "string \<Rightarrow> 8 word list" where
  "encode_utf8 s = concat (map (\<lambda>c.
     let n = (of_char c :: nat)
     in if n < 128 then [of_nat n] else [of_nat (192 + n div 64), of_nat (128 + n mod 64)]) s)"

text \<open>
  \<^verbatim>\<open>
  def dicttoxml(obj, root=True, custom_root='root', ids=False, attr_type=True):
      output = []
      addline = output.append
      if root is True:
          addline('<?xml version="1.0" encoding="UTF-8" ?>')
          addline('<{}>{}</{}>'.format(
              custom_root, convert(obj, ids, attr_type, parent=custom_root), custom_root))
      else:
          addline(convert(obj, ids, attr_type, parent=''))
      return ''.join(output).encode('utf-8')
  \<close>
\<close>

definition dicttoxml :: "xml_parser \<Rightarrow> pyval \<Rightarrow> bool \<Rightarrow> string \<Rightarrow> bool \<Rightarrow> bool \<Rightarrow> (8 word list) run" where
  "dicttoxml parses obj root custom_root use_ids attr_type =
     bind
       (if root
        then bind (convert parses obj use_ids attr_type custom_root)
               (\<lambda>inner. ret (''<?xml version=\"1.0\" encoding=\"UTF-8\" ?>''
                               @ ''<'' @ custom_root @ ''>'' @ inner @ ''</'' @ custom_root @ ''>''))
        else convert parses obj use_ids attr_type [])
       (\<lambda>output. ret (encode_utf8 output))"

text \<open>The state of a fresh process: no identifier issued, the three default dicts as
  their \<open>def\<close> statements made them, no draw made from the random source \<open>r\<close>.\<close>

definition init_state :: "(nat \<Rightarrow> nat) \<Rightarrow> pstate" where
  "init_state r = \<lparr>ids = [], kv_attr = [], bool_attr = [], none_attr = [], rand = r, rpos = 0\<rparr>"

section \<open>A sample parser\<close>

text \<open>
  The theorems below hold for every parser. Where one of them needs a parser's verdict on
  a given key, an instance is checked with this one: it accepts the test document of
  \<open>key_is_valid_xml\<close> exactly when the key is a name of ASCII letters, digits, \<open>_\<close>, \<open>:\<close>,
  \<open>-\<close> and \<open>.\<close> that starts with a letter, \<open>_\<close> or \<open>:\<close>.
\<close>

definition is_name_start :: "char \<Rightarrow> bool" where
  "is_name_start c =
     (let n = (of_char c :: nat)
      in (65 \<le> n \<and> n \<le> 90) \<or> (97 \<le> n \<and> n \<le> 122) \<or> c = CHR ''_'' \<or> c = CHR '':'')"

definition is_name_char :: "char \<Rightarrow> bool" where
  "is_name_char c =
     (let n = (of_char c :: nat)
      in is_name_start c \<or> (48 \<le> n \<and> n \<le> 57) \<or> c = CHR ''-'' \<or> c = CHR ''.'')"

fun strip_prefix :: "string \<Rightarrow> string \<Rightarrow> string option" where
  "strip_prefix [] s = Some s"
| "strip_prefix (p # ps) [] = None"
| "strip_prefix (p # ps) (c # cs) = (if p = c then strip_prefix ps cs else None)"

definition sample_parser :: xml_parser where
  "sample_parser doc =
     (case strip_prefix ''<?xml version=\"1.0\" encoding=\"UTF-8\" ?><'' doc of
        None \<Rightarrow> False
      | Some rest \<Rightarrow>
          (let name = takeWhile is_name_char rest
           in name \<noteq> [] \<and> is_name_start (hd name)
              \<and> dropWhile is_name_char rest = ''>foo</'' @ name @ ''>''))"

section \<open>Predicates of the specification\<close>

text \<open>What a call may do to the state: \<open>same_defaults\<close>, it leaves the three default dicts
  as they are; \<open>ids_grow\<close>, it only appends to \<open>ids\<close>, and what it appends is new and without
  repetition. \<open>frames m\<close>: every run of \<open>m\<close> that ends does both. \<open>pure_run m\<close>: \<open>m\<close> ends in
  every state, with one result, and changes nothing.\<close>

definition same_defaults :: "pstate \<Rightarrow> pstate \<Rightarrow> bool" where
  "same_defaults s s' =
     (kv_attr s' = kv_attr s \<and> bool_attr s' = bool_attr s \<and> none_attr s' = none_attr s)"

definition ids_grow :: "pstate \<Rightarrow> pstate \<Rightarrow> bool" where
  "ids_grow s s' =
     (\<exists>new. ids s' = ids s @ new \<and> set new \<inter> set (ids s) = {} \<and> distinct new)"

definition frames :: "'a run \<Rightarrow> bool" where
  "frames m = (\<forall>s r s'. m s = Some (r, s') \<longrightarrow> ids_grow s s' \<and> same_defaults s s')"

definition pure_run :: "'a run \<Rightarrow> bool" where
  "pure_run m = (\<exists>r. \<forall>s. m s = Some (r, s))"

text \<open>A default dict is as its \<open>def\<close> statement made it; or, for a parser that rejects the
  name \<open>item\<close>, it holds that name under \<open>name\<close>.\<close>

definition default_ok :: "xml_parser \<Rightarrow> attrs \<Rightarrow> bool" where
  "default_ok parses a =
     (a = [] \<or> (\<not> key_is_valid_xml parses ''item'' \<and> a = [(''name'', ''item'')]))"

definition defaults_ok :: "xml_parser \<Rightarrow> pstate \<Rightarrow> bool" where
  "defaults_ok parses s =
     (default_ok parses (kv_attr s) \<and> default_ok parses (bool_attr s)
      \<and> default_ok parses (none_attr s))"

text \<open>The states of a process: the fresh state, and the state in which a call of
  \<open>dicttoxml\<close> (with any arguments, returning or raising) leaves a state of the process.\<close>

inductive reachable :: "xml_parser \<Rightarrow> pstate \<Rightarrow> bool" for parses :: xml_parser where
  start: "reachable parses (init_state r)"
| call: "reachable parses s \<Longrightarrow>
         dicttoxml parses obj root custom_root use_ids attr_type s = Some (res, s') \<Longrightarrow>
         reachable parses s'"

text \<open>A value is supported when no object of an unrecognized shape occurs in it.\<close>

fun supported :: "pyval \<Rightarrow> bool"
  and supported_items :: "(string \<times> pyval) list \<Rightarrow> bool"
  and supported_list :: "pyval list \<Rightarrow> bool" where
  "supported (PObj r t) = False"
| "supported (PDict d) = supported_items d"
| "supported (PList xs) = supported_list xs"
| "supported v = True"
| "supported_items [] = True"
| "supported_items ((k, v) # rest) = (supported v \<and> supported_items rest)"
| "supported_list [] = True"
| "supported_list (v # rest) = (supported v \<and> supported_list rest)"

text \<open>\<open>settles ok m\<close>: the call \<open>m\<close> changes no state; it returns when \<open>ok\<close> holds, and
  otherwise raises the error for an unsupported object.\<close>

definition settles :: "bool \<Rightarrow> 'a run \<Rightarrow> bool" where
  "settles ok m =
     (if ok then (\<exists>x. m = ret x) else (\<exists>r t. m = raise (unsupported (PObj r t))))"

text \<open>The identifier \<open>make_id\<close> builds from the \<open>k\<close>-th draw from now on.\<close>

definition candidate :: "string \<Rightarrow> pstate \<Rightarrow> nat \<Rightarrow> string" where
  "candidate el s k = el @ ''_'' @ str_int (100000 + int (rand s (rpos s + k) mod 900000))"

section \<open>Laws of sequencing\<close>

lemma bind_ret [simp]: "bind (ret x) f = f x"
  by (rule ext) (simp add: bind_def ret_def)

lemma bind_raise [simp]: "bind (raise e) f = raise e"
  by (rule ext) (simp add: bind_def raise_def)

lemma bind_lift_Inr [simp]: "bind (lift (Inr x)) f = f x"
  by (rule ext) (simp add: bind_def lift_def)

lemma bind_lift_Inl [simp]: "bind (lift (Inl e)) f = raise e"
  by (rule ext) (simp add: bind_def lift_def raise_def)

lemma bind_ret_right [simp]: "bind m ret = m"
  by (rule ext) (auto simp: bind_def ret_def split: option.splits sum.splits)

lemma bind_assoc: "bind (bind m f) g = bind m (\<lambda>x. bind (f x) g)"
  by (rule ext) (auto simp: bind_def split: option.splits sum.splits)

section \<open>Verdicts of the sample parser\<close>

lemma sample_parser_a: "key_is_valid_xml sample_parser ''a''"
  by (simp add: key_is_valid_xml_def sample_parser_def is_name_char_def is_name_start_def)

lemma sample_parser_b: "key_is_valid_xml sample_parser ''b''"
  by (simp add: key_is_valid_xml_def sample_parser_def is_name_char_def is_name_start_def)

lemma sample_parser_k: "key_is_valid_xml sample_parser ''k''"
  by (simp add: key_is_valid_xml_def sample_parser_def is_name_char_def is_name_start_def)

lemma sample_parser_item: "key_is_valid_xml sample_parser ''item''"
  by (simp add: key_is_valid_xml_def sample_parser_def is_name_char_def is_name_start_def)

lemma sample_parser_123: "\<not> key_is_valid_xml sample_parser ''123''"
  by (simp add: key_is_valid_xml_def sample_parser_def is_name_char_def is_name_start_def)

lemma str_int_1: "str_int 1 = ''1''"
  by (simp add: str_int_def str_nat.simps)

lemma str_int_2: "str_int 2 = ''2''"
  by (simp add: str_int_def str_nat.simps)

section \<open>The Type Classifier raises on every value\<close>

lemma type_str_mapping_keys:
  "map fst type_str_mapping = [T_str, T_int, T_float, T_bool, T_Number, T_NoneType, T_dict, T_Iterable]"
  by (simp add: type_str_mapping_def dict_display_def)

text \<open>The first item of the loop is the type object \<open>str\<close>, and unpacking it raises: no
  value reaches an \<open>isinstance\<close> test.\<close>

lemma get_xml_type_raises:
  "get_xml_type val = Inl (TypeError ''cannot unpack non-iterable type object'')"
  by (simp add: get_xml_type_def type_str_mapping_keys unpack_pair_def)

text \<open>
  Claim C1 says that the Type Classifier returns normally, with one of its eight tags, for
  every value of a recognized kind. The code does not: for the integer 1 (and for every
  other value) \<open>get_xml_type\<close> raises TypeError, because its loop iterates over the keys of
  the table and unpacks each key as if it were a pair of key and tag.
\<close>

theorem get_xml_type_int_raises:
  "get_xml_type (PInt 1) = Inl (TypeError ''cannot unpack non-iterable type object'')"
  by (simp add: get_xml_type_def type_str_mapping_keys unpack_pair_def)

section \<open>The Escaper\<close>

lemma replace_char_concat:
  "replace_char c r (concat (map f s)) = concat (map (\<lambda>x. replace_char c r (f x)) s)"
  by (induction s) (simp_all add: replace_char_def)

lemma replace_char_as_concat: "replace_char c r s = concat (map (\<lambda>x. replace_char c r [x]) s)"
  by (simp add: replace_char_def)

text \<open>On one character the five replacements, in their order, give the character's entity:
  the ampersand of an entity made by a later replacement is never escaped again.\<close>

lemma escape_one:
  "replace_char (CHR ''>'') ''&gt;'' (replace_char (CHR ''<'') ''&lt;''
     (replace_char (CHR 0x27) ''&apos;'' (replace_char (CHR 0x22) ''&quot;''
       (replace_char (CHR ''&'') ''&amp;'' [x])))) = escape_char x"
  by (simp add: replace_char_def escape_char_def)

lemma xml_escape_chars: "xml_escape (PStr s) = PStr (concat (map escape_char s))"
proof -
  have "replace_char (CHR ''>'') ''&gt;'' (replace_char (CHR ''<'') ''&lt;''
     (replace_char (CHR 0x27) ''&apos;'' (replace_char (CHR 0x22) ''&quot;''
       (replace_char (CHR ''&'') ''&amp;'' s)))) = concat (map escape_char s)"
    apply (subst replace_char_as_concat [of "CHR ''&''"])
    apply (simp only: replace_char_concat escape_one)
    done
  then show ?thesis by (simp add: Let_def)
qed

text \<open>
  Claim C9: \<open>xml_escape\<close> changes only a text; an integer, a float, another number and a
  boolean come back as they are. On a text it replaces \<open>&\<close>, the double quote, the single
  quote, \<open><\<close> and \<open>>\<close>, in this order, by their entities, which maps every character to its
  entity and escapes nothing twice; and the escaped form of \<open><a&b>\<close> is
  \<open>&lt;a&amp;b&gt;\<close>.
\<close>

theorem xml_escape_spec:
  "xml_escape (PStr s) =
     PStr (replace_char (CHR ''>'') ''&gt;'' (replace_char (CHR ''<'') ''&lt;''
       (replace_char (CHR 0x27) ''&apos;'' (replace_char (CHR 0x22) ''&quot;''
         (replace_char (CHR ''&'') ''&amp;'' s)))))
   \<and> xml_escape (PStr s) = PStr (concat (map escape_char s))
   \<and> xml_escape (PInt i) = PInt i \<and> xml_escape (PFloat r) = PFloat r
   \<and> xml_escape (PNum r t) = PNum r t \<and> xml_escape (PBool b) = PBool b
   \<and> xml_escape (PStr ''<a&b>'') = PStr ''&lt;a&amp;b&gt;''"
  using xml_escape_chars [of s] by (simp add: Let_def replace_char_def)

section \<open>The documented example\<close>

text \<open>
  Claim C3: for the mapping \<open>{"a": 1, "b": [1, 2]}\<close>, with the root element \<open>root\<close>, no
  ids and no type attributes, \<open>dicttoxml\<close> returns the UTF-8 bytes of
  \<open><?xml version="1.0" encoding="UTF-8" ?><root><a>1</a><b><item>1</item><item>2</item></b></root>\<close>
  and leaves the state as it was. The three keys the call tests (\<open>a\<close>, \<open>b\<close> and \<open>item\<close>) are
  XML names: the parser accepts their test documents.
\<close>

theorem dicttoxml_example:
  assumes "key_is_valid_xml parses ''a''" and "key_is_valid_xml parses ''b''"
    and "key_is_valid_xml parses ''item''"
  shows "dicttoxml parses (PDict [(''a'', PInt 1), (''b'', PList [PInt 1, PInt 2])])
           True ''root'' False False s =
         Some (Inr (encode_utf8
           ''<?xml version=\"1.0\" encoding=\"UTF-8\" ?><root><a>1</a><b><item>1</item><item>2</item></b></root>''), s)"
  using assms
  apply (simp add: dicttoxml_def convert_def type_is_str_def has_isoformat_def type_is_bool_def
      convert_kv_def make_valid_xml_name_def set_type_attr_def element_def make_attrstring_def
      str_int_1 str_int_2)
  apply (simp add: ret_def)
  done

theorem dicttoxml_example_witness:
  "key_is_valid_xml sample_parser ''a'' \<and> key_is_valid_xml sample_parser ''b''
   \<and> key_is_valid_xml sample_parser ''item''
   \<and> dicttoxml sample_parser (PDict [(''a'', PInt 1), (''b'', PList [PInt 1, PInt 2])])
           True ''root'' False False (init_state (\<lambda>n. 0)) =
         Some (Inr (encode_utf8
           ''<?xml version=\"1.0\" encoding=\"UTF-8\" ?><root><a>1</a><b><item>1</item><item>2</item></b></root>''),
           init_state (\<lambda>n. 0))"
  using dicttoxml_example [OF sample_parser_a sample_parser_b sample_parser_item,
      of "init_state (\<lambda>n. 0)"]
    sample_parser_a sample_parser_b sample_parser_item
  by simp

section \<open>The Name Sanitizer\<close>

lemma replace_char_single: "replace_char c [d] s = map (\<lambda>x. if x = c then d else x) s"
  by (induction s) (simp_all add: replace_char_def)

text \<open>
  Claim C6: \<open>make_valid_xml_name\<close> is this case analysis, in this order, and it returns a
  name and a dict for every key and every dict (it has no failing branch: the parser's
  exceptions are caught inside \<open>key_is_valid_xml\<close>). A key that is a valid name comes back
  unchanged; else a key of digits only (at least one, as \<open>isdigit\<close> reads it) gets the
  prefix \<open>n\<close>; else, if the key with every space replaced by an underscore is valid, that
  form is returned; else the name is \<open>key\<close> and the dict maps \<open>name\<close> to the key, its other
  entries as before. The dict is unchanged in the first three cases. The key \<open>123\<close>, which
  is not a valid name, gives \<open>n123\<close>.
\<close>

theorem make_valid_xml_name_cases:
  "make_valid_xml_name parses key attr =
     (if key_is_valid_xml parses key then (key, attr)
      else if key \<noteq> [] \<and> list_all is_digit_char key then (CHR ''n'' # key, attr)
      else if key_is_valid_xml parses (map (\<lambda>c. if c = CHR '' '' then CHR ''_'' else c) key)
        then (map (\<lambda>c. if c = CHR '' '' then CHR ''_'' else c) key, attr)
      else (''key'', AList.update ''name'' key attr))
   \<and> map_of (AList.update ''name'' key attr) = (map_of attr)(''name'' \<mapsto> key)
   \<and> (\<not> key_is_valid_xml parses ''123'' \<longrightarrow>
        make_valid_xml_name parses ''123'' attr = (''n123'', attr))"
  by (simp add: make_valid_xml_name_def isdigit_def replace_char_single update_conv'
      is_digit_char_def)

theorem make_valid_xml_name_cases_witness:
  "\<not> key_is_valid_xml sample_parser ''123''
   \<and> make_valid_xml_name sample_parser ''123'' [] = (''n123'', [])"
  using make_valid_xml_name_cases [of sample_parser "''123''" "[]"] sample_parser_123
  by (simp add: is_digit_char_def)

section \<open>Booleans\<close>

text \<open>
  Claim C2 says that a mapping entry whose value is \<open>True\<close> is rendered as
  \<open><key>true</key>\<close>, or as \<open><key type="bool">true</key>\<close> with type attributes. The code
  does neither. The dispatch tests \<open>isinstance(val, numbers.Number)\<close> first, and a boolean
  is a number: the entry goes to \<open>convert_kv\<close>, which writes \<open>str(True)\<close>, and the branch for
  \<open>type(val) == bool\<close> with its lowercase rendering is never reached. With type attributes
  the call raises the TypeError of the classifier.
\<close>

theorem bool_entry_rendering:
  "dicttoxml sample_parser (PDict [(''k'', PBool True)]) True ''root'' False False s =
     Some (Inr (encode_utf8
       ''<?xml version=\"1.0\" encoding=\"UTF-8\" ?><root><k>True</k></root>''), s)
   \<and> dicttoxml sample_parser (PDict [(''k'', PBool True)]) True ''root'' False True s =
     Some (Inl (TypeError ''cannot unpack non-iterable type object''), s)"
  using sample_parser_k
  apply (simp add: dicttoxml_def convert_def type_is_str_def has_isoformat_def type_is_bool_def
      convert_kv_def make_valid_xml_name_def set_type_attr_def element_def make_attrstring_def
      get_xml_type_raises)
  apply (simp add: ret_def raise_def)
  done

section \<open>Containers inside a list\<close>

text \<open>The loop of \<open>convert_list\<close> over two lists in a row: the index of the second part
  continues the first.\<close>

lemma convert_list_loop_append:
  "convert_list_loop parses (xs @ ys) i use_ids this_id parent attr_type =
     bind (convert_list_loop parses xs i use_ids this_id parent attr_type)
       (\<lambda>a. bind (convert_list_loop parses ys (i + length xs) use_ids this_id parent attr_type)
          (\<lambda>b. ret (a @ b)))"
proof (induction xs arbitrary: i)
  case Nil
  show ?case by simp
next
  case (Cons x xs)
  show ?case
    by (simp add: Cons.IH bind_assoc Let_def del: if_split cong: if_cong)
qed

lemma loop_dict_False:
  "convert_list_loop parses (PDict d # post) i use_ids this_id parent False =
     bind (convert_dict parses d use_ids parent False)
       (\<lambda>b. bind (convert_list_loop parses post (Suc i) use_ids this_id parent False)
          (\<lambda>c. ret (b @ c)))"
  by (simp add: type_is_str_def has_isoformat_def type_is_bool_def)

lemma loop_dict_True:
  "convert_list_loop parses (PDict d # post) i use_ids this_id parent True =
     bind (convert_dict parses d use_ids parent True)
       (\<lambda>b. bind (convert_list_loop parses post (Suc i) use_ids this_id parent True)
          (\<lambda>c. ret (''<item type=\"dict\">'' @ b @ ''</item>'' @ c)))"
  by (simp add: type_is_str_def has_isoformat_def type_is_bool_def bind_assoc)

lemma loop_list_False:
  "convert_list_loop parses (PList xs # post) i use_ids this_id parent False =
     bind (convert_list parses xs use_ids ''item'' False)
       (\<lambda>b. bind (convert_list_loop parses post (Suc i) use_ids this_id parent False)
          (\<lambda>c. ret (b @ c)))"
  by (simp add: type_is_str_def has_isoformat_def type_is_bool_def del: convert_list.simps)

lemma loop_list_True:
  "convert_list_loop parses (PList xs # post) i use_ids this_id parent True =
     bind (convert_list parses xs use_ids ''item'' True)
       (\<lambda>b. bind (convert_list_loop parses post (Suc i) use_ids this_id parent True)
          (\<lambda>c. ret (''<item type=\"list\"''
             @ make_attrstring (if use_ids then [(''id'', this_id @ ''_'' @ str_int (int i + 1))] else [])
             @ ''>'' @ b @ ''</item>'' @ c)))"
  by (simp add: type_is_str_def has_isoformat_def type_is_bool_def bind_assoc Let_def
      del: convert_list.simps)

text \<open>
  A mapping \<open>d\<close> that is an element of a list, at any place in it. Without type attributes
  the loop puts the result of \<open>convert_dict\<close> for \<open>d\<close>, called with the parent name of the
  list, between the results for the elements before and after, with no tag around it;
  with type attributes it puts that result inside \<open><item type="dict">\<close> and \<open></item>\<close>. A
  list \<open>xs\<close> that is an element: without type attributes the result of \<open>convert_list\<close> for
  \<open>xs\<close>, called with the parent name \<open>item\<close>, with no tag around it; with type attributes
  that result inside \<open><item type="list" ...>\<close> and \<open></item>\<close>. A failure of a part is the
  failure of the whole.
\<close>

lemma nested_container_in_list:
  "convert_list_loop parses (pre @ PDict d # post) i use_ids this_id parent False =
     bind (convert_list_loop parses pre i use_ids this_id parent False)
       (\<lambda>a. bind (convert_dict parses d use_ids parent False)
          (\<lambda>b. bind (convert_list_loop parses post (Suc (i + length pre)) use_ids this_id parent False)
             (\<lambda>c. ret (a @ b @ c))))
   \<and> convert_list_loop parses (pre @ PDict d # post) i use_ids this_id parent True =
     bind (convert_list_loop parses pre i use_ids this_id parent True)
       (\<lambda>a. bind (convert_dict parses d use_ids parent True)
          (\<lambda>b. bind (convert_list_loop parses post (Suc (i + length pre)) use_ids this_id parent True)
             (\<lambda>c. ret (a @ ''<item type=\"dict\">'' @ b @ ''</item>'' @ c))))
   \<and> convert_list_loop parses (pre @ PList xs # post) i use_ids this_id parent False =
     bind (convert_list_loop parses pre i use_ids this_id parent False)
       (\<lambda>a. bind (convert_list parses xs use_ids ''item'' False)
          (\<lambda>b. bind (convert_list_loop parses post (Suc (i + length pre)) use_ids this_id parent False)
             (\<lambda>c. ret (a @ b @ c))))
   \<and> convert_list_loop parses (pre @ PList xs # post) i use_ids this_id parent True =
     bind (convert_list_loop parses pre i use_ids this_id parent True)
       (\<lambda>a. bind (convert_list parses xs use_ids ''item'' True)
          (\<lambda>b. bind (convert_list_loop parses post (Suc (i + length pre)) use_ids this_id parent True)
             (\<lambda>c. ret (a @ ''<item type=\"list\"''
                @ make_attrstring (if use_ids
                    then [(''id'', this_id @ ''_'' @ str_int (int (i + length pre) + 1))] else [])
                @ ''>'' @ b @ ''</item>'' @ c))))
   \<and> convert_list parses items use_ids parent attr_type =
     bind (if use_ids then get_unique_id parent else ret [])
       (\<lambda>this_id. convert_list_loop parses items 0 use_ids this_id parent attr_type)"
  by (simp only: convert_list_loop_append loop_dict_False loop_dict_True loop_list_False
      loop_list_True bind_assoc bind_ret append_assoc convert_list.simps simp_thms)

text \<open>With type attributes a mapping with at least one entry is never rendered: the first
  entry raises, through the classifier for every value of a recognized shape.\<close>

lemma nonempty_dict_raises:
  "convert_dict parses ((key0, val) # rest) False parent True =
     raise (case val of PObj r t \<Rightarrow> unsupported val
            | _ \<Rightarrow> TypeError ''cannot unpack non-iterable type object'')"
  by (cases val)
    (simp_all add: type_is_str_def has_isoformat_def type_is_bool_def case_prod_beta
      convert_kv_def convert_bool_def convert_none_def set_type_attr_def get_xml_type_raises
      del: convert_list.simps)

text \<open>
  Claim C4 says that a mapping that is an element of a sequence is spliced without a tag
  when type attributes are off, and rendered inside \<open><item type="dict">\<close> and \<open></item>\<close>
  when they are on (a nested sequence likewise, inside \<open><item type="list" ...>\<close>). The
  code splices as the claim says. With type attributes it produces no wrapped rendering
  of a mapping that has an entry, nor of a sequence that has a scalar: for the list
  \<open>[{"a": 1}]\<close> and for the list \<open>[[1]]\<close> the call raises the TypeError of the classifier.
  The wrapper is written only around a container whose rendering is empty.
\<close>

theorem nested_container_with_type_raises:
  "dicttoxml sample_parser (PList [PDict [(''a'', PInt 1)]]) True ''root'' False True s =
     Some (Inl (TypeError ''cannot unpack non-iterable type object''), s)
   \<and> dicttoxml sample_parser (PList [PList [PInt 1]]) True ''root'' False True s =
     Some (Inl (TypeError ''cannot unpack non-iterable type object''), s)
   \<and> dicttoxml sample_parser (PList [PDict [(''a'', PInt 1)]]) True ''root'' False False s =
     Some (Inr (encode_utf8
       ''<?xml version=\"1.0\" encoding=\"UTF-8\" ?><root><a>1</a></root>''), s)
   \<and> dicttoxml sample_parser (PList [PDict []]) True ''root'' False True s =
     Some (Inr (encode_utf8
       ''<?xml version=\"1.0\" encoding=\"UTF-8\" ?><root><item type=\"dict\"></item></root>''), s)"
  using sample_parser_a sample_parser_item
  apply (simp add: dicttoxml_def convert_def type_is_str_def has_isoformat_def type_is_bool_def
      convert_kv_def make_valid_xml_name_def set_type_attr_def element_def make_attrstring_def
      get_xml_type_raises str_int_1)
  apply (simp add: ret_def raise_def)
  done

section \<open>Text is a leaf\<close>

lemma convert_kv_text:
  "snd (convert_kv parses key (PStr t) attr_type attr) =
     (if attr_type then Inl (TypeError ''cannot unpack non-iterable type object'')
      else Inr (element (fst (make_valid_xml_name parses key attr))
                  (make_attrstring (snd (make_valid_xml_name parses key attr)))
                  (concat (map escape_char t))))"
  using xml_escape_chars [of t]
  by (simp add: convert_kv_def set_type_attr_def get_xml_type_raises split: prod.splits
      del: xml_escape.simps)

text \<open>
  A text is iterable (\<open>isinstance\<close> holds for it and \<open>T_Iterable\<close>, and \<open>iter_items\<close> gives
  its characters), yet at each of the three dispatch sites (the top level, a mapping
  entry, a list element) a text goes to the leaf renderer \<open>convert_kv\<close>, for every setting
  of the flags, and no call of \<open>convert_list\<close> is made for it. \<open>PStr\<close> is a text whose type
  is \<open>str\<close> itself, which is what the dispatch tests.
\<close>

lemma text_is_a_leaf:
  "convert parses (PStr t) use_ids attr_type parent =
     on_kv_default (convert_kv parses ''item'' (PStr t) attr_type)
   \<and> convert_dict parses ((key0, PStr t) # rest) use_ids parent attr_type =
     bind (if \<not> use_ids then ret [] else bind (get_unique_id parent) (\<lambda>u. ret [(''id'', u)]))
       (\<lambda>attr0. bind (lift (snd (convert_kv parses (fst (make_valid_xml_name parses key0 attr0))
                                (PStr t) attr_type (snd (make_valid_xml_name parses key0 attr0)))))
          (\<lambda>line. bind (convert_dict parses rest use_ids parent attr_type)
             (\<lambda>output. ret (line @ output))))
   \<and> convert_list_loop parses (PStr t # others) i use_ids this_id parent attr_type =
     bind (lift (snd (convert_kv parses ''item'' (PStr t) attr_type
                   (if \<not> use_ids then [] else [(''id'', this_id @ ''_'' @ str_int (int i + 1))]))))
       (\<lambda>line. bind (convert_list_loop parses others (Suc i) use_ids this_id parent attr_type)
          (\<lambda>output. ret (line @ output)))
   \<and> snd (convert_kv parses key (PStr t) attr_type attr) =
     (if attr_type then Inl (TypeError ''cannot unpack non-iterable type object'')
      else Inr (element (fst (make_valid_xml_name parses key attr))
                  (make_attrstring (snd (make_valid_xml_name parses key attr)))
                  (concat (map escape_char t))))
   \<and> dicttoxml sample_parser (PList [PStr ''ab'']) False [] False False s =
       Some (Inr (encode_utf8 ''<item>ab</item>''), s)"
proof -
  have ex: "dicttoxml sample_parser (PList [PStr ''ab'']) False [] False False s =
       Some (Inr (encode_utf8 ''<item>ab</item>''), s)"
    using sample_parser_item
    apply (simp add: dicttoxml_def convert_def type_is_str_def has_isoformat_def type_is_bool_def
      convert_kv_def make_valid_xml_name_def set_type_attr_def element_def make_attrstring_def
      replace_char_def)
    apply (simp add: ret_def lift_def bind_def)
    done
  show ?thesis
    using ex convert_kv_text [of parses key t attr_type attr]
    by (simp add: convert_def type_is_str_def Let_def case_prod_beta
        del: if_split cong: if_cong)
qed

text \<open>
  Claim C10 says that a text is always rendered as a single leaf element, at the top
  level, as a mapping value and as a sequence element. Without type attributes the code
  does so: the text \<open>ab\<close> gives \<open><item>ab</item>\<close>, \<open><k>ab</k>\<close> and \<open><item>ab</item>\<close> at the
  three sites. With type attributes (the default) it renders no text at any site: the
  leaf renderer calls the classifier, and the call raises TypeError.
\<close>

theorem text_with_type_raises:
  "dicttoxml sample_parser (PStr ''ab'') True ''root'' False True (init_state r) =
     Some (Inl (TypeError ''cannot unpack non-iterable type object''), init_state r)
   \<and> dicttoxml sample_parser (PDict [(''k'', PStr ''ab'')]) True ''root'' False True (init_state r) =
     Some (Inl (TypeError ''cannot unpack non-iterable type object''), init_state r)
   \<and> dicttoxml sample_parser (PList [PStr ''ab'']) True ''root'' False True (init_state r) =
     Some (Inl (TypeError ''cannot unpack non-iterable type object''), init_state r)
   \<and> dicttoxml sample_parser (PStr ''ab'') True ''root'' False False (init_state r) =
     Some (Inr (encode_utf8
       ''<?xml version=\"1.0\" encoding=\"UTF-8\" ?><root><item>ab</item></root>''), init_state r)
   \<and> dicttoxml sample_parser (PDict [(''k'', PStr ''ab'')]) True ''root'' False False (init_state r) =
     Some (Inr (encode_utf8
       ''<?xml version=\"1.0\" encoding=\"UTF-8\" ?><root><k>ab</k></root>''), init_state r)
   \<and> dicttoxml sample_parser (PList [PStr ''ab'']) True ''root'' False False (init_state r) =
     Some (Inr (encode_utf8
       ''<?xml version=\"1.0\" encoding=\"UTF-8\" ?><root><item>ab</item></root>''), init_state r)"
  using sample_parser_k sample_parser_item
  apply (simp add: dicttoxml_def convert_def type_is_str_def has_isoformat_def type_is_bool_def
      convert_kv_def make_valid_xml_name_def set_type_attr_def element_def make_attrstring_def
      get_xml_type_raises replace_char_def)
  apply (simp add: ret_def raise_def bind_def on_kv_default_def convert_kv_def
      make_valid_xml_name_def set_type_attr_def element_def make_attrstring_def
      get_xml_type_raises replace_char_def init_state_def)
  done

section \<open>What a call does to the state\<close>

lemma ids_grow_refl [simp]: "ids_grow s s"
  by (simp add: ids_grow_def)

lemma ids_grow_trans: "ids_grow s t \<Longrightarrow> ids_grow t u \<Longrightarrow> ids_grow s u"
  by (auto simp: ids_grow_def)

lemma same_defaults_refl [simp]: "same_defaults s s"
  by (simp add: same_defaults_def)

lemma same_defaults_trans: "same_defaults s t \<Longrightarrow> same_defaults t u \<Longrightarrow> same_defaults s u"
  by (simp add: same_defaults_def)

lemma frames_ret [simp]: "frames (ret x)"
  by (simp add: frames_def ret_def)

lemma frames_raise [simp]: "frames (raise e)"
  by (simp add: frames_def raise_def)

lemma frames_lift [simp]: "frames (lift r)"
  by (simp add: frames_def lift_def)

lemma frames_bind:
  assumes "frames m" and "\<And>x. frames (f x)"
  shows "frames (bind m f)"
  unfolding frames_def
proof (intro allI impI)
  fix s r s'
  assume h: "bind m f s = Some (r, s')"
  show "ids_grow s s' \<and> same_defaults s s'"
  proof (cases "m s")
    case None
    with h show ?thesis by (simp add: bind_def)
  next
    case (Some p)
    obtain q t where p: "p = (q, t)" by (cases p)
    have mt: "ids_grow s t \<and> same_defaults s t"
      using assms(1) Some p by (simp add: frames_def)
    show ?thesis
    proof (cases q)
      case (Inl e)
      with h Some p mt show ?thesis by (simp add: bind_def)
    next
      case (Inr x)
      with h Some p have "f x t = Some (r, s')" by (simp add: bind_def)
      then have "ids_grow t s' \<and> same_defaults t s'"
        using assms(2) [of x] by (simp add: frames_def)
      with mt show ?thesis by (blast intro: ids_grow_trans same_defaults_trans)
    qed
  qed
qed

lemma make_id_frame:
  "ids (snd (make_id el start end s)) = ids s
   \<and> kv_attr (snd (make_id el start end s)) = kv_attr s
   \<and> bool_attr (snd (make_id el start end s)) = bool_attr s
   \<and> none_attr (snd (make_id el start end s)) = none_attr s"
  by (simp add: make_id_def randint_def)

lemma get_unique_id_loop_fresh:
  assumes "get_unique_id_loop el this_id s = Some s'"
  shows "\<exists>r. r \<notin> set (ids s) \<and> ids s' = ids s @ [r] \<and> same_defaults s s'"
  using assms
proof (induction rule: get_unique_id_loop.raw_induct [rotated 1, consumes 1])
  case (1 loop el this_id s s')
  show ?case
  proof (cases "this_id \<in> set (ids s)")
    case False
    with 1(2) show ?thesis by (auto simp: same_defaults_def)
  next
    case True
    with 1(2) have "loop el (fst (make_id el 100000 999999 s))
        (snd (make_id el 100000 999999 s)) = Some s'"
      by (simp add: Let_def)
    from 1(1) [OF this] show ?thesis
      by (simp add: make_id_frame same_defaults_def)
  qed
qed

lemma get_unique_id_fresh:
  assumes "get_unique_id el s = Some (res, s')"
  shows "\<exists>r. res = Inr r \<and> r \<notin> set (ids s) \<and> ids s' = ids s @ [r] \<and> same_defaults s s'"
proof -
  let ?p = "make_id el 100000 999999 s"
  from assms obtain t where t: "get_unique_id_loop el (fst ?p) (snd ?p) = Some t"
    by (auto simp: get_unique_id_def Let_def split: option.splits)
  from get_unique_id_loop_fresh [OF t] obtain r where
    r: "r \<notin> set (ids s)" "ids t = ids s @ [r]" "same_defaults (snd ?p) t"
    by (auto simp: make_id_frame)
  from assms t r(2) have "res = Inr r" "s' = t"
    by (auto simp: get_unique_id_def Let_def)
  with r show ?thesis by (auto simp: same_defaults_def make_id_frame)
qed

lemma frames_get_unique_id [simp]: "frames (get_unique_id el)"
  unfolding frames_def
proof (intro allI impI)
  fix s r s'
  assume "get_unique_id el s = Some (r, s')"
  from get_unique_id_fresh [OF this] show "ids_grow s s' \<and> same_defaults s s'"
    by (auto simp: ids_grow_def)
qed

lemma frames_ifI: "(c \<Longrightarrow> frames a) \<Longrightarrow> (\<not> c \<Longrightarrow> frames b) \<Longrightarrow> frames (if c then a else b)"
  by simp

lemma frames_engine:
  "frames (convert_dict parses d use_ids parent attr_type)"
  "frames (convert_list_loop parses xs i use_ids this_id parent attr_type)"
  "frames (convert_list parses xs use_ids parent attr_type)"
proof (induction parses d use_ids parent attr_type and parses xs i use_ids this_id parent attr_type
    and parses xs use_ids parent attr_type rule: convert_dict_convert_list_loop_convert_list.induct)
  case (1 parses use_ids parent attr_type)
  show ?case by simp
next
  case (2 parses key0 val rest use_ids parent attr_type)
  show ?case
    apply (subst convert_dict.simps)
    apply (simp only: Let_def case_prod_beta)
    apply (intro frames_bind frames_ifI frames_ret frames_raise frames_lift frames_get_unique_id)
      apply (rule 2(1) [OF refl prod.collapse]; assumption)
     apply (rule 2(2) [OF refl prod.collapse]; assumption)
    apply (rule 2(3) [OF refl prod.collapse])
    done
next
  case (3 parses i use_ids this_id parent attr_type)
  show ?case by simp
next
  case (4 parses item rest i use_ids this_id parent attr_type)
  show ?case
    apply (subst convert_list_loop.simps)
    apply (simp only: Let_def)
    apply (intro frames_bind frames_ifI frames_ret frames_raise frames_lift frames_get_unique_id)
          apply (rule 4(1) [OF refl]; assumption)
         apply (rule 4(2) [OF refl]; assumption)
        apply (rule 4(3) [OF refl]; assumption)
       apply (rule 4(4) [OF refl]; assumption)
    apply (rule 4(5) [OF refl])
    done
next
  case (5 parses items use_ids parent attr_type)
  show ?case
    apply (subst convert_list.simps)
    apply (intro frames_bind frames_ifI frames_ret frames_get_unique_id)
    apply (rule 5)
    done
qed

section \<open>Without ids the engine reads and changes no state\<close>

lemma pure_ret [simp]: "pure_run (ret x)"
  by (auto simp: pure_run_def ret_def)

lemma pure_raise [simp]: "pure_run (raise e)"
  by (auto simp: pure_run_def raise_def)

lemma pure_lift [simp]: "pure_run (lift r)"
  by (auto simp: pure_run_def lift_def)

lemma pure_bind:
  assumes "pure_run m" and "\<And>x. pure_run (f x)"
  shows "pure_run (bind m f)"
proof -
  from assms(1) obtain r where r: "\<And>s. m s = Some (r, s)" by (auto simp: pure_run_def)
  show ?thesis
  proof (cases r)
    case (Inl e)
    with r have "\<And>s. bind m f s = Some (Inl e, s)" by (simp add: bind_def)
    then show ?thesis unfolding pure_run_def by blast
  next
    case (Inr x)
    from assms(2) [of x] obtain q where q: "\<And>s. f x s = Some (q, s)" by (auto simp: pure_run_def)
    with r Inr have "\<And>s. bind m f s = Some (q, s)" by (simp add: bind_def)
    then show ?thesis unfolding pure_run_def by blast
  qed
qed

lemma pure_ifI: "(c \<Longrightarrow> pure_run a) \<Longrightarrow> (\<not> c \<Longrightarrow> pure_run b) \<Longrightarrow> pure_run (if c then a else b)"
  by simp

lemma pure_engine:
  "\<not> use_ids \<Longrightarrow> pure_run (convert_dict parses d use_ids parent attr_type)"
  "\<not> use_ids \<Longrightarrow> pure_run (convert_list_loop parses xs i use_ids this_id parent attr_type)"
  "\<not> use_ids \<Longrightarrow> pure_run (convert_list parses xs use_ids parent attr_type)"
proof (induction parses d use_ids parent attr_type and parses xs i use_ids this_id parent attr_type
    and parses xs use_ids parent attr_type rule: convert_dict_convert_list_loop_convert_list.induct)
  case (1 parses use_ids parent attr_type)
  show ?case by simp
next
  case (2 parses key0 val rest use_ids parent attr_type)
  note off = \<open>\<not> use_ids\<close>
  show ?case
    apply (subst convert_dict.simps)
    apply (simp only: Let_def case_prod_beta)
    apply (intro pure_bind pure_ifI pure_ret pure_raise pure_lift)
    subgoal using off by simp
    subgoal by (rule 2(1) [OF refl prod.collapse _ _ _ _ off]; assumption)
    subgoal by (rule 2(2) [OF refl prod.collapse _ _ _ _ _ off]; assumption)
    subgoal by (rule 2(3) [OF refl prod.collapse off])
    done
next
  case (3 parses i use_ids this_id parent attr_type)
  show ?case by simp
next
  case (4 parses item rest i use_ids this_id parent attr_type)
  note off = \<open>\<not> use_ids\<close>
  show ?case
    apply (subst convert_list_loop.simps)
    apply (simp only: Let_def)
    apply (intro pure_bind pure_ifI pure_ret pure_raise pure_lift)
    subgoal by (rule 4(1) [OF refl _ _ _ _ _ off]; assumption)
    subgoal by (rule 4(2) [OF refl _ _ _ _ _ off]; assumption)
    subgoal by (rule 4(3) [OF refl _ _ _ _ _ _ off]; assumption)
    subgoal by (rule 4(4) [OF refl _ _ _ _ _ _ off]; assumption)
    subgoal by (rule 4(5) [OF refl off])
    done
next
  case (5 parses items use_ids parent attr_type)
  note off = \<open>\<not> use_ids\<close>
  show ?case
    apply (subst convert_list.simps)
    apply (intro pure_bind pure_ifI pure_ret)
    subgoal using off by simp
    subgoal by (rule 5(1) [OF off])
    done
qed

section \<open>The default dicts and the top level\<close>

text \<open>A leaf renderer leaves its dict as \<open>make_valid_xml_name\<close> left it: the type attribute
  is never stored, since the classifier raises before the assignment.\<close>

lemma convert_kv_attr:
  "fst (convert_kv parses key val attr_type a) = snd (make_valid_xml_name parses key a)"
  by (simp add: convert_kv_def set_type_attr_def get_xml_type_raises case_prod_beta)

lemma convert_bool_attr:
  "fst (convert_bool parses key val attr_type a) = snd (make_valid_xml_name parses key a)"
  by (simp add: convert_bool_def set_type_attr_def get_xml_type_raises case_prod_beta)

lemma convert_none_attr:
  "fst (convert_none parses key val attr_type a) = snd (make_valid_xml_name parses key a)"
  by (simp add: convert_none_def set_type_attr_def get_xml_type_raises case_prod_beta)

lemma item_not_digits: "\<not> isdigit ''item''"
  by (simp add: isdigit_def is_digit_char_def)

lemma item_no_space: "replace_char (CHR '' '') ''_'' ''item'' = ''item''"
  by (simp add: replace_char_def)

lemma make_valid_xml_name_item:
  "make_valid_xml_name parses ''item'' a =
     (if key_is_valid_xml parses ''item'' then (''item'', a)
      else (''key'', AList.update ''name'' ''item'' a))"
  by (simp add: make_valid_xml_name_def item_not_digits item_no_space)

lemma default_ok_step:
  "default_ok parses a \<Longrightarrow> default_ok parses (snd (make_valid_xml_name parses ''item'' a))"
  by (auto simp: make_valid_xml_name_item default_ok_def)

lemma default_ok_same:
  "default_ok parses a \<Longrightarrow> default_ok parses b \<Longrightarrow>
   make_valid_xml_name parses ''item'' a = make_valid_xml_name parses ''item'' b"
  by (auto simp: make_valid_xml_name_item default_ok_def)

lemma convert_kv_same:
  "default_ok parses a \<Longrightarrow> default_ok parses b \<Longrightarrow>
   snd (convert_kv parses ''item'' val attr_type a) = snd (convert_kv parses ''item'' val attr_type b)"
  using default_ok_same [of parses a b] by (simp add: convert_kv_def)

lemma convert_bool_same:
  "default_ok parses a \<Longrightarrow> default_ok parses b \<Longrightarrow>
   snd (convert_bool parses ''item'' val attr_type a) = snd (convert_bool parses ''item'' val attr_type b)"
  using default_ok_same [of parses a b] by (simp add: convert_bool_def)

lemma convert_none_same:
  "default_ok parses a \<Longrightarrow> default_ok parses b \<Longrightarrow>
   snd (convert_none parses ''item'' val attr_type a) = snd (convert_none parses ''item'' val attr_type b)"
  using default_ok_same [of parses a b] by (simp add: convert_none_def)

lemma on_kv_default_eq:
  "on_kv_default f s = Some (snd (f (kv_attr s)), s\<lparr>kv_attr := fst (f (kv_attr s))\<rparr>)"
  by (simp add: on_kv_default_def case_prod_beta)

lemma on_bool_default_eq:
  "on_bool_default f s = Some (snd (f (bool_attr s)), s\<lparr>bool_attr := fst (f (bool_attr s))\<rparr>)"
  by (simp add: on_bool_default_def case_prod_beta)

lemma on_none_default_eq:
  "on_none_default f s = Some (snd (f (none_attr s)), s\<lparr>none_attr := fst (f (none_attr s))\<rparr>)"
  by (simp add: on_none_default_def case_prod_beta)

lemma convert_step:
  assumes "convert parses obj use_ids attr_type parent s = Some (r, s')"
  shows "ids_grow s s' \<and> (defaults_ok parses s \<longrightarrow> defaults_ok parses s')"
proof -
  have fr: "frames m \<Longrightarrow> m s = Some (r, s') \<Longrightarrow>
      ids_grow s s' \<and> (defaults_ok parses s \<longrightarrow> defaults_ok parses s')" for m :: "string run"
    by (auto simp: frames_def same_defaults_def defaults_ok_def)
  consider (kv) "isinstance obj T_Number \<or> type_is_str obj"
    | (iso) "\<not> (isinstance obj T_Number \<or> type_is_str obj)" "has_isoformat obj"
    | (bool) "\<not> (isinstance obj T_Number \<or> type_is_str obj)" "\<not> has_isoformat obj"
        "type_is_bool obj"
    | (none) "\<not> (isinstance obj T_Number \<or> type_is_str obj)" "\<not> has_isoformat obj"
        "\<not> type_is_bool obj" "obj = PNone"
    | (rest) "\<not> (isinstance obj T_Number \<or> type_is_str obj)" "\<not> has_isoformat obj"
        "\<not> type_is_bool obj" "obj \<noteq> PNone"
    by blast
  then show ?thesis
  proof cases
    case kv
    with assms show ?thesis
      by (auto simp: convert_def on_kv_default_eq convert_kv_attr defaults_ok_def ids_grow_def
          intro: default_ok_step simp del: isinstance.simps)
  next
    case iso
    with assms show ?thesis
      by (auto simp: convert_def on_kv_default_eq convert_kv_attr defaults_ok_def ids_grow_def
          intro: default_ok_step simp del: isinstance.simps)
  next
    case bool
    with assms show ?thesis
      by (auto simp: convert_def on_bool_default_eq convert_bool_attr defaults_ok_def ids_grow_def
          intro: default_ok_step simp del: isinstance.simps)
  next
    case none
    with assms show ?thesis
      by (auto simp: convert_def on_none_default_eq convert_none_attr defaults_ok_def ids_grow_def
          type_is_str_def has_isoformat_def type_is_bool_def intro: default_ok_step)
  next
    case rest
    show ?thesis
    proof (rule fr)
      show "frames (if isinstance obj T_dict
          then convert_dict parses (dict_items obj) use_ids parent attr_type
          else if isinstance obj T_Iterable
          then convert_list parses (iter_items obj) use_ids parent attr_type
          else raise (unsupported obj))"
        by (intro frames_ifI frames_engine frames_raise)
      show "(if isinstance obj T_dict
          then convert_dict parses (dict_items obj) use_ids parent attr_type
          else if isinstance obj T_Iterable
          then convert_list parses (iter_items obj) use_ids parent attr_type
          else raise (unsupported obj)) s = Some (r, s')"
        using assms rest by (simp add: convert_def del: isinstance.simps convert_list.simps)
    qed
  qed
qed

lemma convert_deterministic:
  assumes "defaults_ok parses s1" and "defaults_ok parses s2"
  shows "\<exists>r s1' s2'. convert parses obj False attr_type parent s1 = Some (r, s1')
     \<and> convert parses obj False attr_type parent s2 = Some (r, s2')"
proof -
  have pr: "pure_run m \<Longrightarrow> \<exists>r s1' s2'. m s1 = Some (r, s1') \<and> m s2 = Some (r, s2')"
    for m :: "string run"
    by (auto simp: pure_run_def)
  consider (kv) "isinstance obj T_Number \<or> type_is_str obj"
    | (iso) "\<not> (isinstance obj T_Number \<or> type_is_str obj)" "has_isoformat obj"
    | (bool) "\<not> (isinstance obj T_Number \<or> type_is_str obj)" "\<not> has_isoformat obj"
        "type_is_bool obj"
    | (none) "\<not> (isinstance obj T_Number \<or> type_is_str obj)" "\<not> has_isoformat obj"
        "\<not> type_is_bool obj" "obj = PNone"
    | (rest) "\<not> (isinstance obj T_Number \<or> type_is_str obj)" "\<not> has_isoformat obj"
        "\<not> type_is_bool obj" "obj \<noteq> PNone"
    by blast
  then show ?thesis
  proof cases
    case kv
    with assms convert_kv_same [of parses "kv_attr s1" "kv_attr s2"] show ?thesis
      by (simp add: convert_def on_kv_default_eq defaults_ok_def del: isinstance.simps)
  next
    case iso
    with assms convert_kv_same [of parses "kv_attr s1" "kv_attr s2"] show ?thesis
      by (simp add: convert_def on_kv_default_eq defaults_ok_def del: isinstance.simps)
  next
    case bool
    with assms convert_bool_same [of parses "bool_attr s1" "bool_attr s2"] show ?thesis
      by (simp add: convert_def on_bool_default_eq defaults_ok_def del: isinstance.simps)
  next
    case none
    with assms convert_none_same [of parses "none_attr s1" "none_attr s2"] show ?thesis
      by (simp add: convert_def on_none_default_eq defaults_ok_def
          type_is_str_def has_isoformat_def type_is_bool_def)
  next
    case rest
    have "pure_run (if isinstance obj T_dict
          then convert_dict parses (dict_items obj) False parent attr_type
          else if isinstance obj T_Iterable
          then convert_list parses (iter_items obj) False parent attr_type
          else raise (unsupported obj))"
      by (intro pure_ifI pure_engine pure_raise) simp_all
    from pr [OF this] show ?thesis
      using rest by (simp add: convert_def del: isinstance.simps convert_list.simps)
  qed
qed

lemma dicttoxml_alt:
  "dicttoxml parses obj root custom_root use_ids attr_type s =
     (case convert parses obj use_ids attr_type (if root then custom_root else []) s of
        None \<Rightarrow> None
      | Some (Inl e, s') \<Rightarrow> Some (Inl e, s')
      | Some (Inr inner, s') \<Rightarrow>
          Some (Inr (encode_utf8 (if root
            then ''<?xml version=\"1.0\" encoding=\"UTF-8\" ?>''
                   @ ''<'' @ custom_root @ ''>'' @ inner @ ''</'' @ custom_root @ ''>''
            else inner)), s'))"
  by (auto simp: dicttoxml_def bind_def ret_def split: option.splits sum.splits)

lemma dicttoxml_step:
  assumes "dicttoxml parses obj root custom_root use_ids attr_type s = Some (res, s')"
  shows "ids_grow s s' \<and> (defaults_ok parses s \<longrightarrow> defaults_ok parses s')"
proof -
  from assms obtain r where
    "convert parses obj use_ids attr_type (if root then custom_root else []) s = Some (r, s')"
    by (auto simp: dicttoxml_alt split: option.splits sum.splits)
  then show ?thesis by (rule convert_step)
qed

lemma dicttoxml_deterministic:
  assumes "defaults_ok parses s1" and "defaults_ok parses s2"
  shows "\<exists>out s1' s2'. dicttoxml parses obj root custom_root False attr_type s1 = Some (out, s1')
     \<and> dicttoxml parses obj root custom_root False attr_type s2 = Some (out, s2')"
proof -
  from convert_deterministic [OF assms, of obj attr_type "if root then custom_root else []"]
  obtain r s1' s2' where
    c: "convert parses obj False attr_type (if root then custom_root else []) s1 = Some (r, s1')"
       "convert parses obj False attr_type (if root then custom_root else []) s2 = Some (r, s2')"
    by blast
  show ?thesis
    by (cases r) (simp_all add: dicttoxml_alt c)
qed

lemma reachable_invariant:
  "reachable parses s \<Longrightarrow> distinct (ids s) \<and> defaults_ok parses s"
proof (induction rule: reachable.induct)
  case (start r)
  show ?case by (simp add: init_state_def defaults_ok_def default_ok_def)
next
  case (call s obj root custom_root use_ids attr_type res s')
  from dicttoxml_step [OF call(2)] call(3) show ?case
    by (auto simp: ids_grow_def)
qed

section \<open>The Identity Allocator returns\<close>

lemma make_id_candidate:
  "make_id el 100000 999999 s = (candidate el s 0, s\<lparr>rpos := Suc (rpos s)\<rparr>)"
  by (simp add: make_id_def randint_def candidate_def)

lemma candidate_shift: "candidate el (s\<lparr>rpos := Suc (rpos s)\<rparr>) k = candidate el s (Suc k)"
  by (simp add: candidate_def)

lemma get_unique_id_loop_returns:
  "candidate el s k \<notin> set (ids s) \<Longrightarrow> get_unique_id_loop el c s \<noteq> None"
proof (induction k arbitrary: c s)
  case 0
  show ?case
  proof (cases "c \<in> set (ids s)")
    case False
    then show ?thesis by (subst get_unique_id_loop.simps) simp
  next
    case True
    have "get_unique_id_loop el (candidate el s 0) (s\<lparr>rpos := Suc (rpos s)\<rparr>) \<noteq> None"
      using 0 by (subst get_unique_id_loop.simps) simp
    with True show ?thesis
      by (subst get_unique_id_loop.simps) (simp add: make_id_candidate)
  qed
next
  case (Suc k)
  show ?case
  proof (cases "c \<in> set (ids s)")
    case False
    then show ?thesis by (subst get_unique_id_loop.simps) simp
  next
    case True
    have "candidate el (s\<lparr>rpos := Suc (rpos s)\<rparr>) k \<notin> set (ids (s\<lparr>rpos := Suc (rpos s)\<rparr>))"
      using Suc.prems by (simp add: candidate_shift)
    from Suc.IH [OF this] True show ?thesis
      by (subst get_unique_id_loop.simps) (simp add: make_id_candidate)
  qed
qed

lemma get_unique_id_returns:
  assumes "candidate el s k \<notin> set (ids s)"
  shows "\<exists>r s'. get_unique_id el s = Some (Inr r, s')"
proof -
  have "get_unique_id_loop el (candidate el s 0) (s\<lparr>rpos := Suc (rpos s)\<rparr>) \<noteq> None"
  proof (cases k)
    case 0
    with assms show ?thesis by (subst get_unique_id_loop.simps) simp
  next
    case (Suc j)
    with assms have "candidate el (s\<lparr>rpos := Suc (rpos s)\<rparr>) j
        \<notin> set (ids (s\<lparr>rpos := Suc (rpos s)\<rparr>))"
      by (simp add: candidate_shift)
    then show ?thesis by (rule get_unique_id_loop_returns)
  qed
  then obtain t where "get_unique_id el s \<noteq> None"
    by (auto simp: get_unique_id_def make_id_candidate)
  then obtain res s' where rs: "get_unique_id el s = Some (res, s')" by auto
  from get_unique_id_fresh [OF rs] rs show ?thesis by auto
qed

text \<open>
  Claim C8: in every state of a process the identifiers issued so far (the list \<open>ids\<close>) are
  pairwise distinct. An identifier that \<open>get_unique_id\<close> returns is not in \<open>ids\<close> when the
  call starts and is its last entry when the call returns, the rest of \<open>ids\<close> unchanged. A
  call of \<open>dicttoxml\<close> (with or without ids) only appends to \<open>ids\<close>, and what it appends is
  disjoint from what was there: no conversion issues an identifier that an earlier one
  issued. \<open>get_unique_id\<close> returns whenever some later draw gives a candidate that is not
  in \<open>ids\<close>.
\<close>

theorem issued_ids_distinct:
  assumes "reachable parses s"
  shows "distinct (ids s)
    \<and> (get_unique_id el s = Some (res, s') \<longrightarrow>
         (\<exists>r. res = Inr r \<and> r \<notin> set (ids s) \<and> ids s' = ids s @ [r] \<and> distinct (ids s')))
    \<and> (dicttoxml parses obj root custom_root use_ids attr_type s = Some (out, t) \<longrightarrow>
         (\<exists>new. ids t = ids s @ new \<and> set new \<inter> set (ids s) = {} \<and> distinct (ids t)))
    \<and> (candidate el s k \<notin> set (ids s) \<longrightarrow> (\<exists>r u. get_unique_id el s = Some (Inr r, u)))"
proof -
  have d: "distinct (ids s)" using reachable_invariant [OF assms] by simp
  have a: "\<exists>r. res = Inr r \<and> r \<notin> set (ids s) \<and> ids s' = ids s @ [r] \<and> distinct (ids s')"
    if "get_unique_id el s = Some (res, s')"
    using get_unique_id_fresh [OF that] d by auto
  have c: "\<exists>new. ids t = ids s @ new \<and> set new \<inter> set (ids s) = {} \<and> distinct (ids t)"
    if "dicttoxml parses obj root custom_root use_ids attr_type s = Some (out, t)"
    using dicttoxml_step [OF that] d by (auto simp: ids_grow_def)
  have e: "\<exists>r u. get_unique_id el s = Some (Inr r, u)" if "candidate el s k \<notin> set (ids s)"
    using that by (rule get_unique_id_returns)
  from d a c e show ?thesis by blast
qed

text \<open>Two conversions with ids in a fresh process, the draws being 0, 1, 2 and so on.\<close>

lemma str_int_100000: "str_int 100000 = ''100000''"
  by (simp add: str_int_def str_nat.simps)

lemma str_int_100001: "str_int 100001 = ''100001''"
  by (simp add: str_int_def str_nat.simps)

lemma get_unique_id_first:
  "get_unique_id ''root'' (init_state (\<lambda>n. n)) =
     Some (Inr ''root_100000'',
       \<lparr>ids = [''root_100000''], kv_attr = [], bool_attr = [], none_attr = [],
        rand = (\<lambda>n. n), rpos = Suc 0\<rparr>)"
  apply (simp add: get_unique_id_def make_id_def randint_def init_state_def str_int_100000)
  apply (subst get_unique_id_loop.simps)
  apply simp
  done

lemma get_unique_id_second:
  "get_unique_id ''root'' \<lparr>ids = [''root_100000''], kv_attr = [], bool_attr = [], none_attr = [],
        rand = (\<lambda>n. n), rpos = Suc 0\<rparr> =
     Some (Inr ''root_100001'',
       \<lparr>ids = [''root_100000'', ''root_100001''], kv_attr = [], bool_attr = [], none_attr = [],
        rand = (\<lambda>n. n), rpos = Suc (Suc 0)\<rparr>)"
  apply (simp add: get_unique_id_def make_id_def randint_def str_int_100001)
  apply (subst get_unique_id_loop.simps)
  apply simp
  done

lemma dicttoxml_with_ids:
  "dicttoxml sample_parser (PDict [(''a'', PInt 1)]) True ''root'' True False (init_state (\<lambda>n. n)) =
     Some (Inr (encode_utf8
        ''<?xml version=\"1.0\" encoding=\"UTF-8\" ?><root><a id=\"root_100000\">1</a></root>''),
       \<lparr>ids = [''root_100000''], kv_attr = [], bool_attr = [], none_attr = [],
        rand = (\<lambda>n. n), rpos = Suc 0\<rparr>)"
  using sample_parser_a
  apply (simp add: dicttoxml_def convert_def type_is_str_def has_isoformat_def type_is_bool_def
      convert_kv_def make_valid_xml_name_def set_type_attr_def element_def make_attrstring_def
      str_int_1)
  apply (simp add: bind_def ret_def lift_def get_unique_id_first)
  done

lemma dicttoxml_with_ids_again:
  "dicttoxml sample_parser (PDict [(''a'', PInt 1)]) True ''root'' True False
       \<lparr>ids = [''root_100000''], kv_attr = [], bool_attr = [], none_attr = [],
        rand = (\<lambda>n. n), rpos = Suc 0\<rparr> =
     Some (Inr (encode_utf8
        ''<?xml version=\"1.0\" encoding=\"UTF-8\" ?><root><a id=\"root_100001\">1</a></root>''),
       \<lparr>ids = [''root_100000'', ''root_100001''], kv_attr = [], bool_attr = [], none_attr = [],
        rand = (\<lambda>n. n), rpos = Suc (Suc 0)\<rparr>)"
  using sample_parser_a
  apply (simp add: dicttoxml_def convert_def type_is_str_def has_isoformat_def type_is_bool_def
      convert_kv_def make_valid_xml_name_def set_type_attr_def element_def make_attrstring_def
      str_int_1)
  apply (simp add: bind_def ret_def lift_def get_unique_id_second)
  done

lemma reachable_after_one:
  "reachable sample_parser \<lparr>ids = [''root_100000''], kv_attr = [], bool_attr = [], none_attr = [],
        rand = (\<lambda>n. n), rpos = Suc 0\<rparr>"
  by (rule reachable.call [OF reachable.start dicttoxml_with_ids])

theorem issued_ids_distinct_witness:
  "reachable sample_parser \<lparr>ids = [''root_100000''], kv_attr = [], bool_attr = [], none_attr = [],
        rand = (\<lambda>n. n), rpos = Suc 0\<rparr>
   \<and> get_unique_id ''root'' \<lparr>ids = [''root_100000''], kv_attr = [], bool_attr = [],
        none_attr = [], rand = (\<lambda>n. n), rpos = Suc 0\<rparr> =
     Some (Inr ''root_100001'',
       \<lparr>ids = [''root_100000'', ''root_100001''], kv_attr = [], bool_attr = [], none_attr = [],
        rand = (\<lambda>n. n), rpos = Suc (Suc 0)\<rparr>)
   \<and> dicttoxml sample_parser (PDict [(''a'', PInt 1)]) True ''root'' True False
       \<lparr>ids = [''root_100000''], kv_attr = [], bool_attr = [], none_attr = [],
        rand = (\<lambda>n. n), rpos = Suc 0\<rparr> =
     Some (Inr (encode_utf8
        ''<?xml version=\"1.0\" encoding=\"UTF-8\" ?><root><a id=\"root_100001\">1</a></root>''),
       \<lparr>ids = [''root_100000'', ''root_100001''], kv_attr = [], bool_attr = [], none_attr = [],
        rand = (\<lambda>n. n), rpos = Suc (Suc 0)\<rparr>)
   \<and> ''root_100001'' \<notin> set [''root_100000'']
   \<and> distinct [''root_100000'', ''root_100001'']"
  using issued_ids_distinct [OF reachable_after_one, where el = "''root''"
      and res = "Inr ''root_100001''"
      and s' = "\<lparr>ids = [''root_100000'', ''root_100001''], kv_attr = [], bool_attr = [],
        none_attr = [], rand = (\<lambda>n. n), rpos = Suc (Suc 0)\<rparr>"
      and obj = "PDict [(''a'', PInt 1)]" and root = True and custom_root = "''root''"
      and use_ids = True and attr_type = False and k = 0]
    reachable_after_one get_unique_id_second dicttoxml_with_ids_again
  by simp

text \<open>
  Claim C5: without ids, the result of \<open>dicttoxml\<close> (the bytes, or the exception) depends on
  the arguments only. In any two states of a process, whatever calls led to them, the
  call returns, and with the same result.
\<close>

theorem conversion_deterministic:
  assumes "reachable parses s1" and "reachable parses s2"
  shows "\<exists>out s1' s2'.
      dicttoxml parses obj root custom_root False attr_type s1 = Some (out, s1')
    \<and> dicttoxml parses obj root custom_root False attr_type s2 = Some (out, s2')"
proof -
  have "defaults_ok parses s1" and "defaults_ok parses s2"
    using assms reachable_invariant by blast+
  then show ?thesis by (rule dicttoxml_deterministic)
qed

theorem conversion_deterministic_witness:
  "reachable sample_parser (init_state (\<lambda>n. n))
   \<and> reachable sample_parser \<lparr>ids = [''root_100000''], kv_attr = [], bool_attr = [],
        none_attr = [], rand = (\<lambda>n. n), rpos = Suc 0\<rparr>
   \<and> (\<exists>out s1' s2'.
        dicttoxml sample_parser (PDict [(''a'', PInt 1)]) True ''root'' False False
          (init_state (\<lambda>n. n)) = Some (out, s1')
      \<and> dicttoxml sample_parser (PDict [(''a'', PInt 1)]) True ''root'' False False
          \<lparr>ids = [''root_100000''], kv_attr = [], bool_attr = [],
            none_attr = [], rand = (\<lambda>n. n), rpos = Suc 0\<rparr> = Some (out, s2'))"
  using conversion_deterministic [OF reachable.start [of sample_parser "\<lambda>n. n"]
      reachable_after_one, where obj = "PDict [(''a'', PInt 1)]" and root = True
      and custom_root = "''root''" and attr_type = False]
    reachable.start [of sample_parser "\<lambda>n. n"] reachable_after_one
  by blast

section \<open>Failures\<close>

text \<open>Without ids and without type attributes the engine returns exactly for the supported
  values, and raises the error for an unsupported object otherwise: the error carries the
  text and the type name of the object.\<close>

lemma lift_Inr: "lift (Inr x) = ret x"
  by (rule ext) (simp add: lift_def ret_def)

lemma settles_ret [simp]: "settles True (ret x)"
  by (auto simp: settles_def)

lemma settles_raise [simp]: "settles False (raise (unsupported (PObj r t)))"
  by (auto simp: settles_def)

lemma settles_bind:
  assumes "settles a m" and "\<And>x. settles b (f x)" and "c = (a \<and> b)"
  shows "settles c (bind m f)"
proof (cases a)
  case True
  with assms(1) obtain x where "m = ret x" by (auto simp: settles_def)
  with assms(2) [of x] assms(3) True show ?thesis by simp
next
  case False
  with assms(1) obtain r t where "m = raise (unsupported (PObj r t))" by (auto simp: settles_def)
  with assms(3) False show ?thesis by simp
qed

lemma settles_bind_ret: "settles a m \<Longrightarrow> settles a (bind m (\<lambda>x. ret (g x)))"
  by (rule settles_bind [where b = True]) simp_all

lemma settles_kv [simp]: "settles True (lift (snd (convert_kv parses key val False attr)))"
  by (simp add: convert_kv_def set_type_attr_def case_prod_beta lift_Inr)

lemma settles_bool [simp]: "settles True (lift (snd (convert_bool parses key val False attr)))"
  by (simp add: convert_bool_def set_type_attr_def case_prod_beta lift_Inr)

lemma settles_none [simp]: "settles True (lift (snd (convert_none parses key val False attr)))"
  by (simp add: convert_none_def set_type_attr_def case_prod_beta lift_Inr)

lemma plain_engine:
  "\<not> use_ids \<Longrightarrow> \<not> attr_type \<Longrightarrow>
     settles (supported_items d) (convert_dict parses d use_ids parent attr_type)"
  "\<not> use_ids \<Longrightarrow> \<not> attr_type \<Longrightarrow>
     settles (supported_list xs) (convert_list_loop parses xs i use_ids this_id parent attr_type)"
  "\<not> use_ids \<Longrightarrow> \<not> attr_type \<Longrightarrow>
     settles (supported_list xs) (convert_list parses xs use_ids parent attr_type)"
proof (induction parses d use_ids parent attr_type and parses xs i use_ids this_id parent attr_type
    and parses xs use_ids parent attr_type rule: convert_dict_convert_list_loop_convert_list.induct)
  case (1 parses use_ids parent attr_type)
  show ?case by simp
next
  case (2 parses key0 val rest use_ids parent attr_type)
  note off = \<open>\<not> use_ids\<close> \<open>\<not> attr_type\<close>
  let ?key = "fst (make_valid_xml_name parses key0 [])"
  let ?attr = "snd (make_valid_xml_name parses key0 [])"
  have rest: "settles (supported_items rest)
      (bind (convert_dict parses rest use_ids parent attr_type) (\<lambda>output. ret (line @ output)))"
    for line
    by (rule settles_bind_ret [OF 2(3) [OF refl prod.collapse off]])
  have entry: "settles (supported val)
     (if isinstance val T_Number \<or> type_is_str val
        then lift (snd (convert_kv parses ?key val attr_type ?attr))
      else if has_isoformat val
        then lift (snd (convert_kv parses ?key (isoformat val) attr_type ?attr))
      else if type_is_bool val
        then lift (snd (convert_bool parses ?key val attr_type ?attr))
      else if isinstance val T_dict
        then bind (lift (set_type_attr attr_type val ?attr))
               (\<lambda>attr. bind (convert_dict parses (dict_items val) use_ids ?key attr_type)
                  (\<lambda>inner. ret (element ?key (make_attrstring attr) inner)))
      else if isinstance val T_Iterable
        then bind (lift (set_type_attr attr_type val ?attr))
               (\<lambda>attr. bind (convert_list parses (iter_items val) use_ids ?key attr_type)
                  (\<lambda>inner. ret (element ?key (make_attrstring attr) inner)))
      else if val = PNone
        then lift (snd (convert_none parses ?key val attr_type ?attr))
      else raise (unsupported val))"
  proof (cases val)
    case (PDict d)
    have "settles (supported_items d) (convert_dict parses d use_ids ?key attr_type)"
      using 2(1) [OF refl prod.collapse _ _ _ _ off, of "[]"] PDict
      by (simp add: type_is_str_def has_isoformat_def type_is_bool_def)
    then have "settles (supported_items d)
        (bind (convert_dict parses d use_ids ?key attr_type)
           (\<lambda>inner. ret (element ?key (make_attrstring ?attr) inner)))"
      by (rule settles_bind_ret)
    with PDict off show ?thesis
      by (simp add: type_is_str_def has_isoformat_def type_is_bool_def set_type_attr_def)
  next
    case (PList ys)
    have "settles (supported_list ys) (convert_list parses ys use_ids ?key attr_type)"
      using 2(2) [OF refl prod.collapse _ _ _ _ _ off, of "[]"] PList
      by (simp add: type_is_str_def has_isoformat_def type_is_bool_def)
    then have "settles (supported_list ys)
        (bind (convert_list parses ys use_ids ?key attr_type)
           (\<lambda>inner. ret (element ?key (make_attrstring ?attr) inner)))"
      by (rule settles_bind_ret)
    with PList off show ?thesis
      by (simp add: type_is_str_def has_isoformat_def type_is_bool_def set_type_attr_def
          del: convert_list.simps)
  qed (use off in \<open>simp_all add: type_is_str_def has_isoformat_def type_is_bool_def\<close>)
  show ?case
    apply (subst convert_dict.simps)
    apply (simp only: if_P [OF off(1)] bind_ret Let_def case_prod_beta)
    apply (rule settles_bind [OF entry rest])
    apply simp
    done
next
  case (3 parses i use_ids this_id parent attr_type)
  show ?case by simp
next
  case (4 parses item rest i use_ids this_id parent attr_type)
  note off = \<open>\<not> use_ids\<close> \<open>\<not> attr_type\<close>
  have rest: "settles (supported_list rest)
      (bind (convert_list_loop parses rest (Suc i) use_ids this_id parent attr_type)
         (\<lambda>output. ret (line @ output)))"
    for line
    by (rule settles_bind_ret [OF 4(5) [OF refl off]])
  have entry: "settles (supported item)
     (if isinstance item T_Number \<or> type_is_str item
        then lift (snd (convert_kv parses ''item'' item attr_type []))
      else if has_isoformat item
        then lift (snd (convert_kv parses ''item'' (isoformat item) attr_type []))
      else if type_is_bool item
        then lift (snd (convert_bool parses ''item'' item attr_type []))
      else if isinstance item T_dict
        then (if \<not> attr_type
              then convert_dict parses (dict_items item) use_ids parent attr_type
              else bind (convert_dict parses (dict_items item) use_ids parent attr_type)
                     (\<lambda>inner. ret (''<item type=\"dict\">'' @ inner @ ''</item>'')))
      else if isinstance item T_Iterable
        then (if \<not> attr_type
              then convert_list parses (iter_items item) use_ids ''item'' attr_type
              else bind (convert_list parses (iter_items item) use_ids ''item'' attr_type)
                     (\<lambda>inner. ret (''<item type=\"list\"'' @ make_attrstring [] @ ''>''
                                      @ inner @ ''</item>'')))
      else if item = PNone
        then lift (snd (convert_none parses ''item'' PNone attr_type []))
      else raise (unsupported item))"
  proof (cases item)
    case (PDict d)
    have "settles (supported_items d) (convert_dict parses d use_ids parent attr_type)"
      using 4(1) [OF refl _ _ _ _ _ off] PDict off
      by (simp add: type_is_str_def has_isoformat_def type_is_bool_def)
    with PDict off show ?thesis
      by (simp add: type_is_str_def has_isoformat_def type_is_bool_def)
  next
    case (PList ys)
    have "settles (supported_list ys) (convert_list parses ys use_ids ''item'' attr_type)"
      using 4(3) [OF refl _ _ _ _ _ _ off] PList off
      by (simp add: type_is_str_def has_isoformat_def type_is_bool_def)
    with PList off show ?thesis
      by (simp add: type_is_str_def has_isoformat_def type_is_bool_def del: convert_list.simps)
  qed (use off in \<open>simp_all add: type_is_str_def has_isoformat_def type_is_bool_def\<close>)
  show ?case
    apply (subst convert_list_loop.simps)
    apply (simp only: if_P [OF off(1)] Let_def)
    apply (rule settles_bind [OF entry rest])
    apply simp
    done
next
  case (5 parses items use_ids parent attr_type)
  note off = \<open>\<not> use_ids\<close> \<open>\<not> attr_type\<close>
  show ?case
    apply (subst convert_list.simps)
    apply (simp only: if_not_P [OF off(1)] bind_ret)
    apply (rule 5(1) [OF off])
    done
qed

lemma on_kv_default_plain:
  "\<exists>x s'. on_kv_default (convert_kv parses key val False) s = Some (Inr x, s')"
  by (simp add: on_kv_default_def convert_kv_def set_type_attr_def case_prod_beta)

lemma on_bool_default_plain:
  "\<exists>x s'. on_bool_default (convert_bool parses key val False) s = Some (Inr x, s')"
  by (simp add: on_bool_default_def convert_bool_def set_type_attr_def case_prod_beta)

lemma on_none_default_plain:
  "\<exists>x s'. on_none_default (convert_none parses key val False) s = Some (Inr x, s')"
  by (simp add: on_none_default_def convert_none_def set_type_attr_def case_prod_beta)

lemma convert_plain:
  "(supported obj \<longrightarrow> (\<exists>out s'. convert parses obj False False parent s = Some (Inr out, s')))
   \<and> (\<not> supported obj \<longrightarrow>
        (\<exists>r t s'. convert parses obj False False parent s = Some (Inl (unsupported (PObj r t)), s')))"
proof (cases obj)
  case (PDict d)
  have "settles (supported_items d) (convert_dict parses d False parent False)"
    by (rule plain_engine) simp_all
  with PDict show ?thesis
    by (auto simp: convert_def type_is_str_def has_isoformat_def type_is_bool_def settles_def
        ret_def raise_def split: if_splits) blast+
next
  case (PList xs)
  have "settles (supported_list xs) (convert_list parses xs False parent False)"
    by (rule plain_engine) simp_all
  with PList show ?thesis
    by (auto simp: convert_def type_is_str_def has_isoformat_def type_is_bool_def settles_def
        ret_def raise_def split: if_splits simp del: convert_list.simps) blast+
next
  case (PObj r t)
  then show ?thesis
    by (auto simp: convert_def type_is_str_def has_isoformat_def type_is_bool_def raise_def)
qed (use on_kv_default_plain on_none_default_plain in
      \<open>simp_all add: convert_def type_is_str_def has_isoformat_def type_is_bool_def\<close>)

lemma dicttoxml_plain:
  "(supported obj \<longrightarrow>
      (\<exists>out s'. dicttoxml parses obj root custom_root False False s = Some (Inr out, s')))
   \<and> (\<not> supported obj \<longrightarrow>
      (\<exists>r t s'. dicttoxml parses obj root custom_root False False s =
         Some (Inl (unsupported (PObj r t)), s')))"
  using convert_plain [of obj parses "if root then custom_root else []" s]
  by (auto simp: dicttoxml_alt) blast+

text \<open>
  Claim C7 says that a conversion fails exactly when a value has none of the recognized
  shapes, and then with the error for an unsupported type. Without type attributes that
  is what the code does (\<open>dicttoxml_plain\<close> above). With type attributes (the default) the
  code fails on a mapping that holds one integer, through the TypeError the classifier
  raises, which is not the error for an unsupported type.
\<close>

theorem supported_value_fails:
  "dicttoxml sample_parser (PDict [(''a'', PInt 1)]) True ''root'' False True s =
     Some (Inl (TypeError ''cannot unpack non-iterable type object''), s)
   \<and> TypeError ''cannot unpack non-iterable type object'' \<noteq> unsupported (PInt 1)"
  using sample_parser_a
  apply (simp add: dicttoxml_def convert_def type_is_str_def has_isoformat_def type_is_bool_def
      convert_kv_def make_valid_xml_name_def set_type_attr_def element_def make_attrstring_def
      get_xml_type_raises unsupported_def)
  apply (simp add: ret_def raise_def)
  done

end
